theory Spec2Isabelle
  imports Main "HOL-Library.Finite_Map"
begin

section \<open>Data model of \<open>plugins/modules/cloud/lxd/lxd_container.py\<close>\<close>

text \<open>
  Python values that travel between the module parameters, the control plane's JSON and
  the result. A Python dict is a finite map: equality of two \<open>PDict\<close> values is
  Python's \<open>==\<close> on dicts (same keys, equal values, order irrelevant). Python's
  identification of \<open>True\<close> with \<open>1\<close> is not modelled; the attributes
  compared by this module are strings, booleans, lists and dicts of strings.
\<close>

datatype pyval =
    PNone
  | PBool bool
  | PInt int
  | PStr string
  | PList "pyval list"
  | PDict "(string, pyval) fmap"

text \<open>
  Exceptions. \<open>LXDClientException\<close> is the only one \<open>run\<close> catches; every other
  Python exception (a \<open>KeyError\<close> of a missing key, an \<open>AttributeError\<close> of
  \<open>.items()\<close> on a non-dict, a \<open>TypeError\<close>) leaves \<open>run\<close> uncaught.
\<close>

datatype exn =
    LXDClientException string
  | PyError string

text \<open>
  The requests the module sends through \<open>LXDClient\<close>. The instance name and the
  endpoint are fixed for one run and left out of the request.
  \<^item> \<open>Authenticate pw\<close>: \<open>client.authenticate(trust_password)\<close>
  \<^item> \<open>GetInstance\<close>: \<open>GET endpoint/name\<close>, \<open>ok_error_codes=[404]\<close>
  \<^item> \<open>GetInstanceState\<close>: \<open>GET endpoint/name/state\<close>, \<open>ok_error_codes=[404]\<close>
  \<^item> \<open>PostCreate target body\<close>: \<open>POST endpoint[?target=...]\<close>
  \<^item> \<open>PutState action timeout force\<close>: \<open>PUT endpoint/name/state\<close> with body
    \<open>{action, timeout}\<close> and \<open>force: True\<close> when \<open>force\<close> holds
  \<^item> \<open>DeleteInstance\<close>: \<open>DELETE endpoint/name\<close>
  \<^item> \<open>PutInstance body\<close>: \<open>PUT endpoint/name\<close>
\<close>

datatype request =
    Authenticate string
  | GetInstance
  | GetInstanceState
  | PostCreate "string option" "(string, pyval) fmap"
  | PutState string int bool
  | DeleteInstance
  | PutInstance "(string, pyval) fmap"

text \<open>
  The JSON of \<open>GET endpoint/name\<close> as the module reads it: \<open>resp_json['type']\<close> and
  \<open>resp_json['metadata']\<close>, the latter \<open>None\<close> when the reply carries no metadata
  object (the key is missing or null), in which case every read through it raises.
\<close>

record instance_json =
  jtype :: string
  jmetadata :: "(string, pyval) fmap option"

text \<open>
  The JSON of \<open>GET endpoint/name/state\<close> as the module reads it:
  \<open>resp_json['metadata']['network']\<close>, a dict from device name to the device's
  \<open>addresses\<close>, each address a pair \<open>(family, address)\<close>. The outer \<open>None\<close> is a
  reply without a metadata object, the inner \<open>None\<close> a null \<open>network\<close>.
\<close>

type_synonym network = "(string, (string \<times> string) list) fmap"

type_synonym state_json = "network option option"

text \<open>
  The control plane behind \<open>LXDClient\<close> is not part of this module: it is a parameter.
  Each component answers one kind of call, given the requests sent before it; \<open>Inl msg\<close>
  (or \<open>Some msg\<close>) is \<open>LXDClientException(msg)\<close> raised by the client.
\<close>

record control_plane =
  on_authenticate :: "request list \<Rightarrow> string \<Rightarrow> string option"
  on_get_instance :: "request list \<Rightarrow> string + instance_json"
  on_get_state :: "request list \<Rightarrow> string + state_json"
  on_mutate :: "request list \<Rightarrow> request \<Rightarrow> string option"

text \<open>
  A reference to a Python object held in a dict of the module. \<open>Shared k\<close> is the very
  object stored under key \<open>k\<close> of the fetched metadata dict
  (\<open>old_container_json['metadata'][k]\<close>): whoever holds it sees later in-place changes
  of that object. \<open>Own v\<close> is an object nobody else changes, held by value.
\<close>

datatype objref =
    Shared string
  | Own pyval

text \<open>
  \<open>self.diff\<close>, with \<open>'r\<close> the way an attribute value is held: a key of
  \<open>before\<close> or \<open>after\<close> that is not set is \<open>None\<close>.
\<close>

record 'r diff_rec =
  before_state :: "string option"
  before_instance :: "(string, 'r) fmap option"
  after_state :: "string option"
  after_instance :: "(string, 'r) fmap option"

text \<open>
  The \<open>LXDContainerManagement\<close> object, with the module's \<open>check_mode\<close>, the order in
  which Python iterates \<open>set(CONFIG_PARAMS) - set(CONFIG_CREATION_PARAMS)\<close> (a set of
  strings has no fixed order), the wall clock read when the address wait starts, and the
  requests sent so far.
\<close>

record management =
  name :: string
  config :: "(string, pyval) fmap"
  state :: string
  timeout :: int
  wait_for_ipv4_addresses :: bool
  force_stop :: bool
  addresses :: "(string, string list) fmap option"
  target :: "string option"
  trust_password :: "string option"
  actions :: "string list"
  diff :: "objref diff_rec"
  old_container_json :: instance_json
  old_state :: string
  check_mode :: bool
  param_order :: "string list"
  clock :: int
  sent :: "request list"

text \<open>An operation of the object: it returns a value or raises, and leaves the object changed.\<close>

type_synonym 'a prog = "management \<Rightarrow> (exn + 'a) \<times> management"

definition return :: "'a \<Rightarrow> 'a prog" where
  "return x s = (Inr x, s)"

definition raise :: "exn \<Rightarrow> 'a prog" where
  "raise e s = (Inl e, s)"

definition andthen :: "'a prog \<Rightarrow> ('a \<Rightarrow> 'b prog) \<Rightarrow> 'b prog" where
  "andthen f g s = (case f s of (Inl e, s') \<Rightarrow> (Inl e, s') | (Inr x, s') \<Rightarrow> g x s')"

definition seq :: "unit prog \<Rightarrow> 'b prog \<Rightarrow> 'b prog" where
  "seq f g = andthen f (\<lambda>_. g)"

definition cond :: "(management \<Rightarrow> bool) \<Rightarrow> 'a prog \<Rightarrow> 'a prog \<Rightarrow> 'a prog" where
  "cond p f g s = (if p s then f s else g s)"

definition lift :: "(management \<Rightarrow> exn + 'a) \<Rightarrow> 'a prog" where
  "lift f s = (f s, s)"

section \<open>Constants\<close>

definition LXD_ANSIBLE_STATES :: "(string \<times> string) list" where
  "LXD_ANSIBLE_STATES =
     [(''started'', ''_started''), (''stopped'', ''_stopped''), (''restarted'', ''_restarted''),
      (''absent'', ''_destroyed''), (''frozen'', ''_frozen'')]"

definition ANSIBLE_LXD_STATES :: "(string \<times> string) list" where
  "ANSIBLE_LXD_STATES =
     [(''Running'', ''started''), (''Stopped'', ''stopped''), (''Frozen'', ''frozen'')]"

definition CONFIG_PARAMS :: "string list" where
  "CONFIG_PARAMS =
     [''architecture'', ''config'', ''devices'', ''ephemeral'', ''profiles'', ''source'', ''type'']"

definition CONFIG_CREATION_PARAMS :: "string list" where
  "CONFIG_CREATION_PARAMS = [''source'', ''type'']"

text \<open>\<open>set(CONFIG_PARAMS) - set(CONFIG_CREATION_PARAMS)\<close>\<close>

definition mutable_params :: "string set" where
  "mutable_params = set CONFIG_PARAMS - set CONFIG_CREATION_PARAMS"

text \<open>An iteration order of that set: each of its elements once.\<close>

definition iterates_mutable_params :: "string list \<Rightarrow> bool" where
  "iterates_mutable_params ps = (distinct ps \<and> set ps = mutable_params)"

text \<open>\<open>k.startswith(p)\<close>\<close>

definition startswith :: "string \<Rightarrow> string \<Rightarrow> bool" where
  "startswith k p = (take (length p) k = p)"

section \<open>Construction\<close>

text \<open>
  The module parameters the object reads. \<open>params\<close> holds the values of the
  \<open>CONFIG_PARAMS\<close> attributes; an attribute the caller left out is \<open>PNone\<close> or has
  no entry (\<open>type\<close> has the default \<open>'container'\<close> in the argument spec).
\<close>

record module_args =
  arg_name :: string
  params :: "(string, pyval) fmap"
  arg_state :: string
  arg_target :: "string option"
  arg_timeout :: int
  arg_wait_for_ipv4_addresses :: bool
  arg_force_stop :: bool
  arg_trust_password :: "string option"
  arg_check_mode :: bool

fun build_config_loop ::
  "string list \<Rightarrow> (string, pyval) fmap \<Rightarrow> (string, pyval) fmap \<Rightarrow> (string, pyval) fmap" where
  "build_config_loop [] ps cfg = cfg"
| "build_config_loop (attr # rest) ps cfg =
     (let param_val = (case fmlookup ps attr of None \<Rightarrow> PNone | Some v \<Rightarrow> v)
      in if param_val \<noteq> PNone then build_config_loop rest ps (fmupd attr param_val cfg)
         else build_config_loop rest ps cfg)"

definition build_config :: "(string, pyval) fmap \<Rightarrow> (string, pyval) fmap" where
  "build_config ps = build_config_loop CONFIG_PARAMS ps fmempty"

text \<open>
  \<open>__init__\<close>, without the choice of the URL and the construction of the client. The
  iteration order \<open>order\<close> and the clock reading \<open>now\<close> come from the Python process.
\<close>

definition init :: "module_args \<Rightarrow> string list \<Rightarrow> int \<Rightarrow> management" where
  "init m order now =
     \<lparr> name = arg_name m,
       config = build_config (params m),
       state = arg_state m,
       timeout = arg_timeout m,
       wait_for_ipv4_addresses = arg_wait_for_ipv4_addresses m,
       force_stop = arg_force_stop m,
       addresses = None,
       target = arg_target m,
       trust_password = arg_trust_password m,
       actions = [],
       diff = \<lparr> before_state = None, before_instance = None,
                after_state = None, after_instance = None \<rparr>,
       old_container_json = \<lparr> jtype = [], jmetadata = None \<rparr>,
       old_state = [],
       check_mode = arg_check_mode m,
       param_order = order,
       clock = now,
       sent = [] \<rparr>"

section \<open>Calls of the client\<close>

definition client_authenticate :: "control_plane \<Rightarrow> string \<Rightarrow> unit prog" where
  "client_authenticate cp pw s =
     (let s' = s\<lparr>sent := sent s @ [Authenticate pw]\<rparr>
      in case on_authenticate cp (sent s) pw of
           Some msg \<Rightarrow> (Inl (LXDClientException msg), s')
         | None \<Rightarrow> (Inr (), s'))"

text \<open>\<open>client.do\<close> for \<open>POST\<close>, \<open>PUT\<close> and \<open>DELETE\<close>: the module ignores what it returns.\<close>

definition client_do :: "control_plane \<Rightarrow> request \<Rightarrow> unit prog" where
  "client_do cp req s =
     (let s' = s\<lparr>sent := sent s @ [req]\<rparr>
      in case on_mutate cp (sent s) req of
           Some msg \<Rightarrow> (Inl (LXDClientException msg), s')
         | None \<Rightarrow> (Inr (), s'))"

definition get_container_json :: "control_plane \<Rightarrow> instance_json prog" where
  "get_container_json cp s =
     (let s' = s\<lparr>sent := sent s @ [GetInstance]\<rparr>
      in case on_get_instance cp (sent s) of
           Inl msg \<Rightarrow> (Inl (LXDClientException msg), s')
         | Inr j \<Rightarrow> (Inr j, s'))"

definition get_container_state_json :: "control_plane \<Rightarrow> state_json prog" where
  "get_container_state_json cp s =
     (let s' = s\<lparr>sent := sent s @ [GetInstanceState]\<rparr>
      in case on_get_state cp (sent s) of
           Inl msg \<Rightarrow> (Inl (LXDClientException msg), s')
         | Inr j \<Rightarrow> (Inr j, s'))"

definition container_json_to_module_state :: "instance_json \<Rightarrow> exn + string" where
  "container_json_to_module_state resp_json =
     (if jtype resp_json = ''error'' then Inr ''absent''
      else case jmetadata resp_json of
             None \<Rightarrow> Inl (PyError ''TypeError'')
           | Some metadata \<Rightarrow>
               (case fmlookup metadata ''status'' of
                  Some (PStr status) \<Rightarrow>
                    (case map_of ANSIBLE_LXD_STATES status of
                       None \<Rightarrow> Inl (PyError ''KeyError'')
                     | Some st \<Rightarrow> Inr st)
                | _ \<Rightarrow> Inl (PyError ''KeyError'')))"

section \<open>The lifecycle operations\<close>

definition append_action :: "string \<Rightarrow> unit prog" where
  "append_action a s = (Inr (), s\<lparr>actions := actions s @ [a]\<rparr>)"

definition change_state :: "control_plane \<Rightarrow> string \<Rightarrow> bool \<Rightarrow> unit prog" where
  "change_state cp action force s =
     (if \<not> check_mode s then client_do cp (PutState action (timeout s) force) s
      else return () s)"

text \<open>\<open>if self.target:\<close> holds for a string that is not empty.\<close>

definition create_container :: "control_plane \<Rightarrow> unit prog" where
  "create_container cp s =
     (let body = fmupd ''name'' (PStr (name s)) (config s)
      in seq (if \<not> check_mode s then
                (case target s of
                   Some t \<Rightarrow> if t \<noteq> [] then client_do cp (PostCreate (Some t) body)
                             else client_do cp (PostCreate None body)
                 | None \<Rightarrow> client_do cp (PostCreate None body))
              else return ())
             (append_action ''create'') s)"

definition start_container :: "control_plane \<Rightarrow> unit prog" where
  "start_container cp = seq (change_state cp ''start'' False) (append_action ''start'')"

definition stop_container :: "control_plane \<Rightarrow> unit prog" where
  "stop_container cp s = seq (change_state cp ''stop'' (force_stop s)) (append_action ''stop'') s"

definition restart_container :: "control_plane \<Rightarrow> unit prog" where
  "restart_container cp s =
     seq (change_state cp ''restart'' (force_stop s)) (append_action ''restart'') s"

definition delete_container :: "control_plane \<Rightarrow> unit prog" where
  "delete_container cp s =
     seq (if \<not> check_mode s then client_do cp DeleteInstance else return ())
         (append_action ''delete'') s"

definition freeze_container :: "control_plane \<Rightarrow> unit prog" where
  "freeze_container cp = seq (change_state cp ''freeze'' False) (append_action ''freeze'')"

definition unfreeze_container :: "control_plane \<Rightarrow> unit prog" where
  "unfreeze_container cp = seq (change_state cp ''unfreeze'' False) (append_action ''unfreez'')"

section \<open>Waiting for addresses\<close>

text \<open>
  \<open>_container_ipv4_addresses\<close> with the default \<open>ignore_devices = ['lo']\<close>:
  \<open>network = resp_json['metadata']['network'] or {}\<close>, without the ignored devices,
  then per device the \<open>address\<close> of every address whose \<open>family\<close> is \<open>'inet'\<close>.
\<close>

definition container_ipv4_addresses :: "control_plane \<Rightarrow> (string, string list) fmap prog" where
  "container_ipv4_addresses cp =
     andthen (get_container_state_json cp)
       (\<lambda>resp_json. case resp_json of
            None \<Rightarrow> raise (PyError ''KeyError'')
          | Some nw \<Rightarrow>
              (let network = (case nw of None \<Rightarrow> fmempty | Some n \<Rightarrow> n);
                   network = fmfilter (\<lambda>k. k \<notin> set [''lo'']) network
               in return (fmmap (\<lambda>v. map snd (filter (\<lambda>a. fst a = ''inet'') v)) network)))"

definition has_all_ipv4_addresses :: "(string, string list) fmap \<Rightarrow> bool" where
  "has_all_ipv4_addresses addrs = (addrs \<noteq> fmempty \<and> fmpred (\<lambda>_ v. v \<noteq> []) addrs)"

text \<open>
  The loop of \<open>_get_addresses\<close>: \<open>now\<close> is what \<open>datetime.datetime.now()\<close> reads, in
  seconds; \<open>time.sleep(1)\<close> moves it one second on, and the request itself is taken to
  cost no time. When \<open>now\<close> reaches \<open>due\<close> the loop ends and the function returns
  normally.
\<close>

function get_addresses_loop :: "control_plane \<Rightarrow> int \<Rightarrow> int \<Rightarrow> unit prog" where
  "get_addresses_loop cp due now s =
     (if now < due then
        (case container_ipv4_addresses cp s of
           (Inl e, s') \<Rightarrow> (Inl e, s')
         | (Inr addrs, s') \<Rightarrow>
             if has_all_ipv4_addresses addrs then (Inr (), s'\<lparr>addresses := Some addrs\<rparr>)
             else get_addresses_loop cp due (now + 1) s')
      else (Inr (), s))"
  by pat_completeness auto
termination
  by (relation "measure (\<lambda>(cp, due, now, s). nat (due - now))") auto

text \<open>
  The clock counts the seconds since \<open>datetime.min\<close>, the first second of year 1;
  \<open>datetime.max\<close> is the last second of year 9999.
\<close>

definition datetime_max :: int where
  "datetime_max = 315537897599"

text \<open>
  \<open>_get_addresses\<close>: \<open>datetime.datetime.now() + datetime.timedelta(seconds=self.timeout)\<close>
  raises \<open>OverflowError\<close> when the sum is no date between \<open>datetime.min\<close> and
  \<open>datetime.max\<close>, and nothing catches it. An \<open>LXDClientException\<close> raised inside
  the loop is raised again with its message replaced.
\<close>

definition get_addresses :: "control_plane \<Rightarrow> unit prog" where
  "get_addresses cp s =
     (if clock s + timeout s < 0 \<or> datetime_max < clock s + timeout s
      then (Inl (PyError ''OverflowError''), s)
      else case get_addresses_loop cp (clock s + timeout s) (clock s) s of
             (Inl (LXDClientException m), s') \<Rightarrow>
               (Inl (LXDClientException ''timeout for getting IPv4 addresses''), s')
           | r \<Rightarrow> r)"

section \<open>Comparing the configuration\<close>

text \<open>
  \<open>_needs_to_change_container_config\<close>. The loop over the desired pairs returns
  \<open>True\<close> at the first pair whose key is missing from \<open>old_configs\<close> or bound to
  another value there, and \<open>False\<close> when there is none: no pair raises, so the order
  of the pairs does not matter.
\<close>

definition needs_to_change_container_config :: "management \<Rightarrow> string \<Rightarrow> exn + bool" where
  "needs_to_change_container_config s key =
     (case fmlookup (config s) key of
        None \<Rightarrow> Inr False
      | Some desired \<Rightarrow>
          (case jmetadata (old_container_json s) of
             None \<Rightarrow> Inl (PyError ''TypeError'')
           | Some metadata \<Rightarrow>
               (case fmlookup metadata key of
                  None \<Rightarrow> Inl (PyError ''KeyError'')
                | Some old \<Rightarrow>
                    if key = ''config'' then
                      (case old of
                         PDict old_items \<Rightarrow>
                           (let old_configs =
                                  fmfilter (\<lambda>k. \<not> startswith k ''volatile.'') old_items
                            in case desired of
                                 PDict items \<Rightarrow>
                                   Inr (\<not> fmpred (\<lambda>k v. fmlookup old_configs k = Some v) items)
                               | _ \<Rightarrow> Inl (PyError ''AttributeError''))
                       | _ \<Rightarrow> Inl (PyError ''AttributeError''))
                    else Inr (desired \<noteq> old))))"

fun needs_to_apply_loop :: "string list \<Rightarrow> management \<Rightarrow> exn + bool" where
  "needs_to_apply_loop [] s = Inr False"
| "needs_to_apply_loop (param # rest) s =
     (case needs_to_change_container_config s param of
        Inl e \<Rightarrow> Inl e
      | Inr True \<Rightarrow> Inr True
      | Inr False \<Rightarrow> needs_to_apply_loop rest s)"

definition needs_to_apply_container_configs :: "management \<Rightarrow> exn + bool" where
  "needs_to_apply_container_configs s = needs_to_apply_loop (param_order s) s"

section \<open>Applying the configuration\<close>

text \<open>
  \<open>for k, v in items: body_json[key][k] = v\<close>. The dict written to is the one
  \<open>body_json[key]\<close> refers to; when that is an object of the fetched metadata, the
  metadata changes with it.
\<close>

definition set_items ::
  "(string, objref) fmap \<Rightarrow> string \<Rightarrow> (string, pyval) fmap \<Rightarrow> (string, objref) fmap prog" where
  "set_items body_json key items s =
     (if items = fmempty then (Inr body_json, s)
      else case fmlookup body_json key of
             None \<Rightarrow> (Inl (PyError ''KeyError''), s)
           | Some (Own v) \<Rightarrow>
               (case v of
                  PDict d \<Rightarrow> (Inr (fmupd key (Own (PDict (d ++\<^sub>f items))) body_json), s)
                | _ \<Rightarrow> (Inl (PyError ''TypeError''), s))
           | Some (Shared k) \<Rightarrow>
               (case jmetadata (old_container_json s) of
                  None \<Rightarrow> (Inl (PyError ''TypeError''), s)
                | Some metadata \<Rightarrow>
                    (case fmlookup metadata k of
                       Some (PDict d) \<Rightarrow>
                         (Inr body_json,
                          s\<lparr>old_container_json := (old_container_json s)
                               \<lparr>jmetadata := Some (fmupd k (PDict (d ++\<^sub>f items)) metadata)\<rparr>\<rparr>)
                     | _ \<Rightarrow> (Inl (PyError ''TypeError''), s))))"

text \<open>One pass of the body of the loop of \<open>_apply_container_configs\<close>.\<close>

definition apply_param :: "string \<Rightarrow> (string, objref) fmap \<Rightarrow> (string, objref) fmap prog" where
  "apply_param param body_json s =
     (case jmetadata (old_container_json s) of
        None \<Rightarrow> (Inl (PyError ''TypeError''), s)
      | Some old_metadata \<Rightarrow>
          (let body_json = (if fmlookup old_metadata param \<noteq> None
                            then fmupd param (Shared param) body_json else body_json)
           in case needs_to_change_container_config s param of
                Inl e \<Rightarrow> (Inl e, s)
              | Inr False \<Rightarrow> (Inr body_json, s)
              | Inr True \<Rightarrow>
                  if param = ''config'' then
                    (case fmlookup (config s) ''config'' of
                       Some (PDict items) \<Rightarrow> set_items body_json ''config'' items s
                     | _ \<Rightarrow> (Inl (PyError ''AttributeError''), s))
                  else
                    (case fmlookup (config s) param of
                       None \<Rightarrow> (Inl (PyError ''KeyError''), s)
                     | Some v \<Rightarrow> (Inr (fmupd param (Own v) body_json), s))))"

text \<open>The loop over the mutable attributes, in the order Python iterates the set.\<close>

fun apply_loop :: "string list \<Rightarrow> (string, objref) fmap \<Rightarrow> (string, objref) fmap prog" where
  "apply_loop [] body_json s = (Inr body_json, s)"
| "apply_loop (param # rest) body_json s =
     (case apply_param param body_json s of
        (Inl e, s') \<Rightarrow> (Inl e, s')
      | (Inr body_json, s') \<Rightarrow> apply_loop rest body_json s')"

text \<open>What a reference stands for when the dict holding it is serialised.\<close>

definition deref :: "management \<Rightarrow> objref \<Rightarrow> pyval" where
  "deref s r =
     (case r of
        Own v \<Rightarrow> v
      | Shared k \<Rightarrow>
          (case jmetadata (old_container_json s) of
             None \<Rightarrow> PNone
           | Some metadata \<Rightarrow> (case fmlookup metadata k of None \<Rightarrow> PNone | Some v \<Rightarrow> v)))"

definition serialise :: "management \<Rightarrow> (string, objref) fmap \<Rightarrow> (string, pyval) fmap" where
  "serialise s d = fmmap (deref s) d"

definition apply_container_configs :: "control_plane \<Rightarrow> unit prog" where
  "apply_container_configs cp =
     andthen (\<lambda>s. case jmetadata (old_container_json s) of
                     None \<Rightarrow> (Inl (PyError ''KeyError''), s)
                   | Some _ \<Rightarrow> apply_loop (param_order s) fmempty s)
       (\<lambda>body_json.
          seq (\<lambda>s. (Inr (), s\<lparr>diff := (diff s)\<lparr>after_instance := Some body_json\<rparr>\<rparr>))
         (seq (\<lambda>s. if \<not> check_mode s then client_do cp (PutInstance (serialise s body_json)) s
                    else return () s)
              (append_action ''apply_container_configs'')))"

section \<open>The handlers of the desired states\<close>

definition apply_if_needed :: "control_plane \<Rightarrow> unit prog" where
  "apply_if_needed cp =
     andthen (lift needs_to_apply_container_configs)
       (\<lambda>b. if b then apply_container_configs cp else return ())"

definition wait_if_requested :: "control_plane \<Rightarrow> unit prog" where
  "wait_if_requested cp = cond wait_for_ipv4_addresses (get_addresses cp) (return ())"

definition started :: "control_plane \<Rightarrow> unit prog" where
  "started cp =
     seq (cond (\<lambda>s. old_state s = ''absent'')
            (seq (create_container cp) (start_container cp))
            (seq (cond (\<lambda>s. old_state s = ''frozen'') (unfreeze_container cp)
                   (cond (\<lambda>s. old_state s = ''stopped'') (start_container cp) (return ())))
                 (apply_if_needed cp)))
         (wait_if_requested cp)"

definition stopped :: "control_plane \<Rightarrow> unit prog" where
  "stopped cp =
     cond (\<lambda>s. old_state s = ''absent'')
       (create_container cp)
       (cond (\<lambda>s. old_state s = ''stopped'')
          (andthen (lift needs_to_apply_container_configs)
             (\<lambda>b. if b then seq (start_container cp)
                                (seq (apply_container_configs cp) (stop_container cp))
                   else return ()))
          (seq (cond (\<lambda>s. old_state s = ''frozen'') (unfreeze_container cp) (return ()))
               (seq (apply_if_needed cp) (stop_container cp))))"

definition restarted :: "control_plane \<Rightarrow> unit prog" where
  "restarted cp =
     seq (cond (\<lambda>s. old_state s = ''absent'')
            (seq (create_container cp) (start_container cp))
            (seq (cond (\<lambda>s. old_state s = ''frozen'') (unfreeze_container cp) (return ()))
                 (seq (apply_if_needed cp) (restart_container cp))))
         (wait_if_requested cp)"

definition destroyed :: "control_plane \<Rightarrow> unit prog" where
  "destroyed cp =
     cond (\<lambda>s. old_state s \<noteq> ''absent'')
       (seq (cond (\<lambda>s. old_state s = ''frozen'') (unfreeze_container cp) (return ()))
            (seq (cond (\<lambda>s. old_state s \<noteq> ''stopped'') (stop_container cp) (return ()))
                 (delete_container cp)))
       (return ())"

definition frozen :: "control_plane \<Rightarrow> unit prog" where
  "frozen cp =
     cond (\<lambda>s. old_state s = ''absent'')
       (seq (create_container cp) (seq (start_container cp) (freeze_container cp)))
       (seq (cond (\<lambda>s. old_state s = ''stopped'') (start_container cp) (return ()))
            (seq (apply_if_needed cp) (freeze_container cp)))"

section \<open>The run\<close>

text \<open>\<open>isinstance(x, dict)\<close>\<close>

fun isinstance_dict :: "pyval \<Rightarrow> bool" where
  "isinstance_dict (PDict d) = True"
| "isinstance_dict v = False"

text \<open>
  One pair of the comprehension that builds \<open>diff['before']['instance']\<close>:
  \<open>(section, content) if not isinstance(section, dict) else (section, dict(... content.items() if not k.startswith('volatile.')))\<close>.
  The test is on \<open>section\<close>, the key, which is a string. \<open>content\<close> is the object of
  the fetched metadata itself, not a copy.
\<close>

definition before_entry :: "string \<Rightarrow> pyval \<Rightarrow> exn + objref" where
  "before_entry section content =
     (if \<not> isinstance_dict (PStr section) then Inr (Shared section)
      else case content of
             PDict d \<Rightarrow> Inr (Own (PDict (fmfilter (\<lambda>k. \<not> startswith k ''volatile.'') d)))
           | _ \<Rightarrow> Inl (PyError ''AttributeError''))"

text \<open>A dict comprehension whose pairs may raise: the dict, or the exception.\<close>

definition comprehension :: "(string, exn + 'a) fmap \<Rightarrow> exn + (string, 'a) fmap" where
  "comprehension m =
     (if fmpred (\<lambda>_ r. \<not> isl r) m then Inr (fmmap projr m)
      else Inl (PyError ''AttributeError''))"

definition record_before :: "unit prog" where
  "record_before s =
     (let s1 = s\<lparr>diff := (diff s)\<lparr>before_state := Some (old_state s),
                                   after_state := Some (state s)\<rparr>\<rparr>
      in case jmetadata (old_container_json s1) of
           None \<Rightarrow> (Inl (PyError ''KeyError''), s1)
         | Some metadata \<Rightarrow>
             (let old_sections = fmfilter (\<lambda>k. k \<in> mutable_params) metadata
              in case comprehension (fmmap_keys before_entry old_sections) of
                   Inl e \<Rightarrow> (Inl e, s1)
                 | Inr before \<Rightarrow>
                     (Inr (), s1\<lparr>diff := (diff s1)\<lparr>before_instance := Some before\<rparr>\<rparr>)))"

text \<open>\<open>getattr(self, LXD_ANSIBLE_STATES[self.state])()\<close>\<close>

definition dispatch :: "control_plane \<Rightarrow> unit prog" where
  "dispatch cp s =
     (case map_of LXD_ANSIBLE_STATES (state s) of
        None \<Rightarrow> (Inl (PyError ''KeyError''), s)
      | Some method \<Rightarrow>
          if method = ''_started'' then started cp s
          else if method = ''_stopped'' then stopped cp s
          else if method = ''_restarted'' then restarted cp s
          else if method = ''_destroyed'' then destroyed cp s
          else if method = ''_frozen'' then frozen cp s
          else (Inl (PyError ''AttributeError''), s))"

text \<open>The body of the \<open>try\<close> of \<open>run\<close>.\<close>

definition run_body :: "control_plane \<Rightarrow> unit prog" where
  "run_body cp =
     seq (\<lambda>s. case trust_password s of
                 Some pw \<Rightarrow> client_authenticate cp pw s
               | None \<Rightarrow> return () s)
    (seq (andthen (get_container_json cp)
            (\<lambda>j s. (Inr (), s\<lparr>old_container_json := j\<rparr>)))
    (seq (andthen (lift (\<lambda>s. container_json_to_module_state (old_container_json s)))
            (\<lambda>st s. (Inr (), s\<lparr>old_state := st\<rparr>)))
    (seq record_before
         (dispatch cp))))"

text \<open>
  What the module hands back: \<open>exit_json\<close> with \<open>old_state\<close>, the report and the
  addresses when they are set; \<open>fail_json\<close> with the message and the report; or an
  exception nobody catches. The \<open>logs\<close> and \<open>log_verbosity\<close> entries are left out.
\<close>

record report =
  changed :: bool
  actions_taken :: "string list"
  diff_reported :: "pyval diff_rec"

datatype outcome =
    exit_json string report "(string, string list) fmap option"
  | fail_json string report
  | uncaught string

definition report_of :: "management \<Rightarrow> report" where
  "report_of s =
     \<lparr> changed = (length (actions s) > 0),
       actions_taken = actions s,
       diff_reported =
         \<lparr> before_state = before_state (diff s),
           before_instance = map_option (serialise s) (before_instance (diff s)),
           after_state = after_state (diff s),
           after_instance = map_option (serialise s) (after_instance (diff s)) \<rparr> \<rparr>"

definition run :: "control_plane \<Rightarrow> management \<Rightarrow> outcome \<times> request list" where
  "run cp s0 =
     (case run_body cp s0 of
        (Inr _, s) \<Rightarrow> (exit_json (old_state s) (report_of s) (addresses s), sent s)
      | (Inl (LXDClientException m), s) \<Rightarrow> (fail_json m (report_of s), sent s)
      | (Inl (PyError e), s) \<Rightarrow> (uncaught e, sent s))"

section \<open>Example inputs\<close>

text \<open>
  An existing container as \<open>GET endpoint/name\<close> describes it, with one configuration
  key of its own and one key of the \<open>volatile.\<close> namespace.
\<close>

definition example_metadata :: "string \<Rightarrow> (string, pyval) fmap" where
  "example_metadata status =
     fmap_of_list
       [(''status'', PStr status), (''name'', PStr ''c1''),
        (''architecture'', PStr ''x86_64''),
        (''config'', PDict (fmap_of_list
            [(''limits.cpu'', PStr ''1''), (''volatile.last_state.power'', PStr ''RUNNING'')])),
        (''devices'', PDict fmempty), (''ephemeral'', PBool False),
        (''profiles'', PList [PStr ''default''])]"

text \<open>A network state in which \<open>eth0\<close> has an IPv6 address only.\<close>

definition example_network :: network where
  "example_network =
     fmap_of_list [(''lo'', [(''inet'', ''127.0.0.1'')]), (''eth0'', [(''inet6'', ''fe80::1'')])]"

text \<open>A control plane on which every call succeeds and the instance has the given status.\<close>

definition example_plane :: "string \<Rightarrow> control_plane" where
  "example_plane status =
     \<lparr> on_authenticate = (\<lambda>_ _. None),
       on_get_instance = (\<lambda>_. Inr \<lparr> jtype = ''sync'', jmetadata = Some (example_metadata status) \<rparr>),
       on_get_state = (\<lambda>_. Inr (Some (Some example_network))),
       on_mutate = (\<lambda>_ _. None) \<rparr>"

text \<open>The caller names the instance and the desired state and nothing else.\<close>

definition example_args :: "string \<Rightarrow> module_args" where
  "example_args desired =
     \<lparr> arg_name = ''c1'', params = fmap_of_list [(''type'', PStr ''container'')],
       arg_state = desired, arg_target = None, arg_timeout = 2,
       arg_wait_for_ipv4_addresses = False, arg_force_stop = False,
       arg_trust_password = None, arg_check_mode = False \<rparr>"

definition example_order :: "string list" where
  "example_order = [''architecture'', ''config'', ''devices'', ''ephemeral'', ''profiles'']"

text \<open>The report of an outcome, when it has one.\<close>

fun report_in :: "outcome \<Rightarrow> report option" where
  "report_in (exit_json st r a) = Some r"
| "report_in (fail_json m r) = Some r"
| "report_in (uncaught e) = None"

section \<open>Vocabulary of the statements\<close>

text \<open>
  The pairs of the desired \<open>config\<close> dict; none when the caller gave no \<open>config\<close>.
\<close>

definition desired_items :: "management \<Rightarrow> (string, pyval) fmap" where
  "desired_items s =
     (case fmlookup (config s) ''config'' of Some (PDict items) \<Rightarrow> items | _ \<Rightarrow> fmempty)"

text \<open>The object with the metadata dict of the fetched JSON replaced.\<close>

definition with_metadata :: "management \<Rightarrow> (string, pyval) fmap \<Rightarrow> management" where
  "with_metadata s md = s\<lparr>old_container_json := (old_container_json s)\<lparr>jmetadata := Some md\<rparr>\<rparr>"

text \<open>The caller also asks for \<open>config: {limits.cpu: '2'}\<close>.\<close>

definition example_config_args :: "string \<Rightarrow> module_args" where
  "example_config_args desired =
     (example_args desired)
       \<lparr>params := fmap_of_list
          [(''type'', PStr ''container''),
           (''config'', PDict (fmap_of_list [(''limits.cpu'', PStr ''2'')]))]\<rparr>"

text \<open>
  The object as \<open>run\<close> has it when it calls the handler: the JSON of the example
  instance fetched and its state \<open>old_state\<close> recorded.
\<close>

definition example_fetched :: "module_args \<Rightarrow> string \<Rightarrow> string \<Rightarrow> management" where
  "example_fetched args status ost =
     (init args example_order 0)
       \<lparr>old_container_json := \<lparr>jtype = ''sync'', jmetadata = Some (example_metadata status)\<rparr>,
         old_state := ost\<rparr>"

text \<open>
  The observed states and the operations of the transition table of the specification,
  each operation standing for the method of the module that performs it.
\<close>

datatype observed = Absent | Stopped | Running | Frozen

fun module_state :: "observed \<Rightarrow> string" where
  "module_state Absent = ''absent''"
| "module_state Stopped = ''stopped''"
| "module_state Running = ''started''"
| "module_state Frozen = ''frozen''"

datatype operation = Create | Start | Stop | Restart | Delete | Freeze | Unfreeze | ApplyConfig

fun perform :: "control_plane \<Rightarrow> operation \<Rightarrow> unit prog" where
  "perform cp Create = create_container cp"
| "perform cp Start = start_container cp"
| "perform cp Stop = stop_container cp"
| "perform cp Restart = restart_container cp"
| "perform cp Delete = delete_container cp"
| "perform cp Freeze = freeze_container cp"
| "perform cp Unfreeze = unfreeze_container cp"
| "perform cp ApplyConfig = apply_container_configs cp"

text \<open>A list of operations, performed in order until one raises.\<close>

fun perform_all :: "control_plane \<Rightarrow> operation list \<Rightarrow> unit prog" where
  "perform_all cp [] = return ()"
| "perform_all cp (x # xs) = seq (perform cp x) (perform_all cp xs)"

text \<open>The row \<open>desired = started\<close> of the transition table, as the specification words it.\<close>

definition table_started :: "observed \<Rightarrow> bool \<Rightarrow> operation list" where
  "table_started obs needed =
     (case obs of
        Absent \<Rightarrow> [Create, Start]
      | Frozen \<Rightarrow> [Unfreeze] @ (if needed then [ApplyConfig] else [])
      | Stopped \<Rightarrow> [Start] @ (if needed then [ApplyConfig] else [])
      | Running \<Rightarrow> (if needed then [ApplyConfig] else []))"

text \<open>The caller left the attribute out: the parameter is missing or \<open>None\<close>.\<close>

definition omitted :: "(string, pyval) fmap \<Rightarrow> string \<Rightarrow> bool" where
  "omitted ps key = (fmlookup ps key = None \<or> fmlookup ps key = Some PNone)"



text \<open>A network state in which \<open>eth0\<close> has an IPv4 address.\<close>

definition example_ready_network :: network where
  "example_ready_network =
     fmap_of_list [(''lo'', [(''inet'', ''127.0.0.1'')]),
                   (''eth0'', [(''inet6'', ''fe80::1''), (''inet'', ''10.0.0.5'')])]"

text \<open>
  The control plane when the instance does not exist: the fetch is answered with a reply
  of type \<open>error\<close>, with the error \<open>not found\<close> and the error code 404, and without
  metadata.
\<close>

definition example_absent_plane :: control_plane where
  "example_absent_plane =
     (example_plane ''Stopped'')
       \<lparr>on_get_instance := (\<lambda>_. Inr \<lparr>jtype = ''error'', jmetadata = None\<rparr>)\<rparr>"


section \<open>Vocabulary of the proofs\<close>

text \<open>
  The common shape of the lifecycle operations: in check mode only the action is logged;
  otherwise the request is sent, and the action is logged when the client does not raise.
\<close>

definition lifecycle_step :: "control_plane \<Rightarrow> request \<Rightarrow> string \<Rightarrow> unit prog" where
  "lifecycle_step cp req a s =
     (if check_mode s then (Inr (), s\<lparr>actions := actions s @ [a]\<rparr>)
      else case on_mutate cp (sent s) req of
             Some m \<Rightarrow> (Inl (LXDClientException m), s\<lparr>sent := sent s @ [req]\<rparr>)
           | None \<Rightarrow> (Inr (), s\<lparr>sent := sent s @ [req], actions := actions s @ [a]\<rparr>))"

definition create_request :: "management \<Rightarrow> request" where
  "create_request s =
     PostCreate (case target s of Some t \<Rightarrow> if t \<noteq> [] then Some t else None | None \<Rightarrow> None)
       (fmupd ''name'' (PStr (name s)) (config s))"

text \<open>
  \<open>preserves I f\<close>: whatever \<open>f\<close> returns or raises, it keeps \<open>I\<close>. An invariant
  is \<open>plan_stable\<close> when the elementary effects of the lifecycle operations and of the
  address wait keep it, and \<open>apply_stable\<close> when those of
  \<open>_apply_container_configs\<close> do.
\<close>

definition preserves :: "(management \<Rightarrow> bool) \<Rightarrow> 'a prog \<Rightarrow> bool" where
  "preserves I f = (\<forall>s. I s \<longrightarrow> I (snd (f s)))"

fun lifecycle_request :: "request \<Rightarrow> bool" where
  "lifecycle_request (PostCreate t b) = True"
| "lifecycle_request (PutState a t f) = True"
| "lifecycle_request DeleteInstance = True"
| "lifecycle_request r = False"

definition plan_stable :: "(management \<Rightarrow> bool) \<Rightarrow> bool" where
  "plan_stable I =
     ((\<forall>s. I s \<longrightarrow> I (s\<lparr>sent := sent s @ [GetInstanceState]\<rparr>)) \<and>
      (\<forall>s req. I s \<longrightarrow> \<not> check_mode s \<longrightarrow> lifecycle_request req \<longrightarrow>
          I (s\<lparr>sent := sent s @ [req]\<rparr>)) \<and>
      (\<forall>s a. I s \<longrightarrow> a \<noteq> ''apply_container_configs'' \<longrightarrow>
          I (s\<lparr>actions := actions s @ [a]\<rparr>)) \<and>
      (\<forall>s a. I s \<longrightarrow> has_all_ipv4_addresses a \<longrightarrow> I (s\<lparr>addresses := Some a\<rparr>)))"

definition apply_stable :: "(management \<Rightarrow> bool) \<Rightarrow> bool" where
  "apply_stable I =
     ((\<forall>s m k d items. I s \<longrightarrow> jmetadata (old_container_json s) = Some m \<longrightarrow>
          fmlookup m k = Some (PDict d) \<longrightarrow>
          I (with_metadata s (fmupd k (PDict (d ++\<^sub>f items)) m))) \<and>
      (\<forall>s b. I s \<longrightarrow> I (s\<lparr>diff := (diff s)\<lparr>after_instance := Some b\<rparr>\<rparr>)) \<and>
      (\<forall>s b. I s \<longrightarrow> \<not> check_mode s \<longrightarrow> I (s\<lparr>sent := sent s @ [PutInstance b]\<rparr>)) \<and>
      (\<forall>s. I s \<longrightarrow> I (s\<lparr>actions := actions s @ [''apply_container_configs'']\<rparr>)))"

text \<open>The configuration was never applied: no such action logged, no \<open>PUT\<close> of the instance sent.\<close>

definition never_applied :: "(string, pyval) fmap \<Rightarrow> string list \<Rightarrow> management \<Rightarrow> bool" where
  "never_applied cfg order s =
     (config s = cfg \<and> param_order s = order \<and>
      ''apply_container_configs'' \<notin> set (actions s) \<and>
      list_all (\<lambda>r. case r of PutInstance b \<Rightarrow> False | _ \<Rightarrow> True) (sent s))"


text \<open>An invariant the steps of \<open>run\<close> before the handler keep.\<close>

definition fetch_stable :: "(management \<Rightarrow> bool) \<Rightarrow> bool" where
  "fetch_stable I =
     ((\<forall>s pw. I s \<longrightarrow> I (s\<lparr>sent := sent s @ [Authenticate pw]\<rparr>)) \<and>
      (\<forall>s. I s \<longrightarrow> I (s\<lparr>sent := sent s @ [GetInstance]\<rparr>)) \<and>
      (\<forall>s j. I s \<longrightarrow> I (s\<lparr>old_container_json := j\<rparr>)) \<and>
      (\<forall>s st. I s \<longrightarrow> I (s\<lparr>old_state := st\<rparr>)) \<and>
      (\<forall>s d. I s \<longrightarrow> I (s\<lparr>diff := d\<rparr>)))"

text \<open>The addresses, when set, are those of a poll that found every device with one.\<close>

definition addresses_complete :: "management \<Rightarrow> bool" where
  "addresses_complete s =
     (case addresses s of None \<Rightarrow> True | Some a \<Rightarrow> has_all_ipv4_addresses a)"


section \<open>Lemmas: the configuration\<close>

lemma lookup_build_config_loop:
  "fmlookup (build_config_loop xs ps cfg) k =
     (if k \<in> set xs \<and> fmlookup ps k \<noteq> None \<and> fmlookup ps k \<noteq> Some PNone
      then fmlookup ps k else fmlookup cfg k)"
  by (induction xs arbitrary: cfg) (auto simp: Let_def split: option.splits)

lemma lookup_build_config:
  "fmlookup (build_config ps) k =
     (if k \<in> set CONFIG_PARAMS \<and> fmlookup ps k \<noteq> None \<and> fmlookup ps k \<noteq> Some PNone
      then fmlookup ps k else None)"
  by (simp add: build_config_def lookup_build_config_loop)

lemma needs_to_change_absent_key:
  "fmlookup (config s) key = None \<Longrightarrow> needs_to_change_container_config s key = Inr False"
  by (simp add: needs_to_change_container_config_def)

lemma needs_to_apply_loop_all_false:
  "(\<And>p. p \<in> set ps \<Longrightarrow> needs_to_change_container_config s p = Inr False) \<Longrightarrow>
   needs_to_apply_loop ps s = Inr False"
  by (induction ps) auto

lemma needs_to_apply_loop_False_iff:
  "needs_to_apply_loop ps s = Inr False \<longleftrightarrow>
   (\<forall>p \<in> set ps. needs_to_change_container_config s p = Inr False)"
  by (induction ps) (auto split: sum.splits bool.splits)


lemma needs_config_iff:
  assumes "fmlookup (config s) ''config'' = Some (PDict items)"
    and "jmetadata (old_container_json s) = Some md"
    and "fmlookup md ''config'' = Some (PDict old)"
  shows "needs_to_change_container_config s ''config'' =
           Inr (\<exists>k v. fmlookup items k = Some v \<and>
                  fmlookup (fmfilter (\<lambda>k. \<not> startswith k ''volatile.'') old) k \<noteq> Some v)"
  using assms by (auto simp: needs_to_change_container_config_def Let_def fmpred_iff)

lemma no_change_merge_id:
  assumes "\<not> (\<exists>k v. fmlookup items k = Some v \<and>
                  fmlookup (fmfilter P old) k \<noteq> Some v)"
  shows "old ++\<^sub>f items = old"
proof (rule fmap_ext)
  fix k
  show "fmlookup (old ++\<^sub>f items) k = fmlookup old k"
  proof (cases "fmlookup items k")
    case None
    then show ?thesis by (simp add: fmlookup_dom_iff)
  next
    case (Some v)
    with assms have "fmlookup (fmfilter P old) k = Some v" by blast
    then have "fmlookup old k = Some v" by (auto split: if_splits)
    with Some show ?thesis by (simp add: fmlookup_dom_iff)
  qed
qed

lemma needs_other_key_metadata:
  "k \<noteq> ''config'' \<Longrightarrow> jmetadata (old_container_json s) = Some md \<Longrightarrow>
   needs_to_change_container_config (with_metadata s (fmupd ''config'' v md)) k =
   needs_to_change_container_config s k"
  by (auto simp: needs_to_change_container_config_def with_metadata_def split: option.splits)


lemma with_metadata_same:
  "jmetadata (old_container_json s) = Some md \<Longrightarrow> with_metadata s md = s"
  by (simp add: with_metadata_def)

lemma with_metadata_fields [simp]:
  "config (with_metadata s md) = config s"
  "jmetadata (old_container_json (with_metadata s md)) = Some md"
  "with_metadata (with_metadata s md) md' = with_metadata s md'"
  "desired_items (with_metadata s md) = desired_items s"
  by (simp_all add: with_metadata_def desired_items_def)

lemma fmupd_same: "fmlookup m k = Some v \<Longrightarrow> fmupd k v m = m"
  by (rule fmap_ext) auto

lemma set_items_config:
  assumes "jmetadata (old_container_json s) = Some md"
    and "fmlookup md ''config'' = Some (PDict old)"
    and "fmlookup body ''config'' = Some (Shared ''config'')"
    and "items \<noteq> fmempty"
  shows "set_items body ''config'' items s =
           (Inr body, with_metadata s (fmupd ''config'' (PDict (old ++\<^sub>f items)) md))"
  using assms by (simp add: set_items_def with_metadata_def)

lemma apply_param_other:
  assumes "apply_param param body s = (Inr body', s')" and "param \<noteq> ''config''"
  shows "s' = s \<and> fmlookup body' ''config'' = fmlookup body ''config''"
  using assms
  by (auto simp: apply_param_def Let_def split: option.splits sum.splits bool.splits if_splits)

lemma apply_loop_without_config:
  assumes "apply_loop ps body s = (Inr body', s')" and "''config'' \<notin> set ps"
  shows "s' = s \<and> fmlookup body' ''config'' = fmlookup body ''config''"
  using assms
proof (induction ps arbitrary: body)
  case Nil
  then show ?case by simp
next
  case (Cons param rest)
  then have ne: "param \<noteq> ''config''" and nin: "''config'' \<notin> set rest" by auto
  obtain r1 s1 where p1: "apply_param param body s = (r1, s1)" by fastforce
  from Cons.prems(1) obtain b1 where r1: "r1 = Inr b1"
    and rest: "apply_loop rest b1 s1 = (Inr body', s')"
    by (cases r1) (auto simp: p1)
  from apply_param_other[OF p1[unfolded r1] ne] Cons.IH[OF _ nin] rest
  show ?case by auto
qed

lemma apply_param_config:
  assumes "apply_param ''config'' body s = (Inr body', s')"
    and "jmetadata (old_container_json s) = Some md"
    and "fmlookup md ''config'' = Some (PDict old)"
  shows "s' = with_metadata s (fmupd ''config'' (PDict (old ++\<^sub>f desired_items s)) md) \<and>
         fmlookup body' ''config'' = Some (Shared ''config'')"
proof (cases "fmlookup (config s) ''config''")
  case None
  then have nc: "needs_to_change_container_config s ''config'' = Inr False"
    by (simp add: needs_to_change_container_config_def)
  have di: "desired_items s = fmempty" using None by (simp add: desired_items_def)
  from assms(1) have e: "s' = s" and b: "body' = fmupd ''config'' (Shared ''config'') body"
    by (auto simp: apply_param_def assms(2,3) nc)
  have "with_metadata s (fmupd ''config'' (PDict (old ++\<^sub>f desired_items s)) md) = s"
    by (simp add: di fmupd_same[OF assms(3)] with_metadata_same[OF assms(2)])
  then show ?thesis using e b by simp
next
  case (Some d)
  show ?thesis
  proof (cases d)
    case (PDict items)
    have di: "desired_items s = items" using Some PDict by (simp add: desired_items_def)
    note nc = needs_config_iff[OF Some[unfolded PDict] assms(2,3)]
    show ?thesis
    proof (cases "\<exists>k v. fmlookup items k = Some v \<and>
                  fmlookup (fmfilter (\<lambda>k. \<not> startswith k ''volatile.'') old) k \<noteq> Some v")
      case True
      then have ne: "items \<noteq> fmempty" by auto
      let ?b = "fmupd ''config'' (Shared ''config'') body"
      let ?s1 = "with_metadata s (fmupd ''config'' (PDict (old ++\<^sub>f items)) md)"
      have si: "set_items ?b ''config'' items s = (Inr ?b, ?s1)"
        by (rule set_items_config[OF assms(2,3) _ ne]) simp
      have nt: "needs_to_change_container_config s ''config'' = Inr True"
        using nc True by simp
      from assms(1) have "s' = ?s1" and "body' = ?b"
        by (auto simp: apply_param_def assms(2,3) nt Some PDict si)
      then show ?thesis by (simp add: di)
    next
      case False
      have nf: "needs_to_change_container_config s ''config'' = Inr False"
        using nc False by simp
      from assms(1) have e: "s' = s" and b: "body' = fmupd ''config'' (Shared ''config'') body"
        by (auto simp: apply_param_def assms(2,3) nf)
      have "with_metadata s (fmupd ''config'' (PDict (old ++\<^sub>f desired_items s)) md) = s"
        by (simp add: di no_change_merge_id[OF False] fmupd_same[OF assms(3)]
            with_metadata_same[OF assms(2)])
      then show ?thesis using e b by simp
    qed
  qed (use assms Some in \<open>auto simp: apply_param_def needs_to_change_container_config_def\<close>)
qed

lemma apply_loop_append:
  "apply_loop (pre @ xs) body s =
     (case apply_loop pre body s of
        (Inl e, s1) \<Rightarrow> (Inl e, s1)
      | (Inr b1, s1) \<Rightarrow> apply_loop xs b1 s1)"
  by (induction pre arbitrary: body s) (auto split: prod.splits sum.splits)

lemma apply_loop_config:
  assumes "apply_loop ps body s = (Inr body', s')"
    and "distinct ps" and "''config'' \<in> set ps"
    and "jmetadata (old_container_json s) = Some md"
    and "fmlookup md ''config'' = Some (PDict old)"
  shows "s' = with_metadata s (fmupd ''config'' (PDict (old ++\<^sub>f desired_items s)) md) \<and>
         fmlookup body' ''config'' = Some (Shared ''config'')"
proof -
  from assms(3) obtain pre rest where ps: "ps = pre @ ''config'' # rest"
    by (auto simp: in_set_conv_decomp)
  with assms(2) have npre: "''config'' \<notin> set pre" and nrest: "''config'' \<notin> set rest"
    by auto
  obtain r1 s1 where p1: "apply_loop pre body s = (r1, s1)" by fastforce
  from assms(1) obtain b1 where r1: "r1 = Inr b1"
    and rest: "apply_loop (''config'' # rest) b1 s1 = (Inr body', s')"
    unfolding ps apply_loop_append p1 by (cases r1) auto
  from apply_loop_without_config[OF p1[unfolded r1] npre] have s1: "s1 = s" by simp
  obtain r2 s2 where p2: "apply_param ''config'' b1 s = (r2, s2)" by fastforce
  from rest obtain b2 where r2: "r2 = Inr b2"
    and rest2: "apply_loop rest b2 s2 = (Inr body', s')"
    by (cases r2) (auto simp: p2 s1)
  from apply_param_config[OF p2[unfolded r2] assms(4,5)]
       apply_loop_without_config[OF rest2 nrest]
  show ?thesis by simp
qed


lemma deref_frame [simp]:
  "deref (s\<lparr>diff := d\<rparr>) = deref s"
  "deref (s\<lparr>actions := a\<rparr>) = deref s"
  "deref (s\<lparr>sent := x\<rparr>) = deref s"
  "deref (s\<lparr>addresses := y\<rparr>) = deref s"
  by (rule ext; simp add: deref_def split: objref.splits)+

lemma serialise_frame [simp]:
  "serialise (s\<lparr>diff := d\<rparr>) = serialise s"
  "serialise (s\<lparr>actions := a\<rparr>) = serialise s"
  "serialise (s\<lparr>sent := x\<rparr>) = serialise s"
  "serialise (s\<lparr>addresses := y\<rparr>) = serialise s"
  by (rule ext; simp add: serialise_def)+

lemma serialise_cong:
  "old_container_json s' = old_container_json s \<Longrightarrow> serialise s' = serialise s"
proof -
  assume "old_container_json s' = old_container_json s"
  then have "deref s' = deref s"
    by (intro ext) (simp add: deref_def split: objref.splits)
  then show ?thesis by (intro ext) (simp add: serialise_def)
qed

lemma apply_container_configs_Inr:
  assumes "apply_container_configs cp s = (Inr (), s')"
  shows "\<exists>body s1. apply_loop (param_order s) fmempty s = (Inr body, s1) \<and>
           after_instance (diff s') = Some body \<and>
           old_container_json s' = old_container_json s1 \<and>
           actions s' = actions s1 @ [''apply_container_configs''] \<and>
           sent s' = (if check_mode s1 then sent s1
                      else sent s1 @ [PutInstance (serialise s1 body)])"
proof -
  obtain r1 s1 where loop: "apply_loop (param_order s) fmempty s = (r1, s1)" by fastforce
  from assms obtain body where r1: "r1 = Inr body"
    by (cases r1) (auto simp: apply_container_configs_def andthen_def loop split: option.splits)
  from assms have "after_instance (diff s') = Some body \<and>
           old_container_json s' = old_container_json s1 \<and>
           actions s' = actions s1 @ [''apply_container_configs''] \<and>
           sent s' = (if check_mode s1 then sent s1
                      else sent s1 @ [PutInstance (serialise s1 body)])"
    by (auto simp: apply_container_configs_def andthen_def seq_def client_do_def return_def
      append_action_def Let_def loop r1 split: option.splits if_splits)
  with loop r1 show ?thesis by blast
qed

lemma iterates_mutable_paramsD:
  "iterates_mutable_params ps \<Longrightarrow> distinct ps \<and> ''config'' \<in> set ps"
  by (simp add: iterates_mutable_params_def mutable_params_def CONFIG_PARAMS_def
      CONFIG_CREATION_PARAMS_def)

lemma serialise_lookup:
  "fmlookup (serialise s b) k = map_option (deref s) (fmlookup b k)"
  by (simp add: serialise_def)

section \<open>Lemmas: invariants of the operations\<close>

lemma lifecycle_forms:
  "create_container cp s = lifecycle_step cp (create_request s) ''create'' s"
  "start_container cp s = lifecycle_step cp (PutState ''start'' (timeout s) False) ''start'' s"
  "stop_container cp s = lifecycle_step cp (PutState ''stop'' (timeout s) (force_stop s)) ''stop'' s"
  "restart_container cp s =
     lifecycle_step cp (PutState ''restart'' (timeout s) (force_stop s)) ''restart'' s"
  "delete_container cp s = lifecycle_step cp DeleteInstance ''delete'' s"
  "freeze_container cp s = lifecycle_step cp (PutState ''freeze'' (timeout s) False) ''freeze'' s"
  "unfreeze_container cp s =
     lifecycle_step cp (PutState ''unfreeze'' (timeout s) False) ''unfreez'' s"
  by (auto simp: lifecycle_step_def create_request_def create_container_def start_container_def
      stop_container_def restart_container_def delete_container_def freeze_container_def
      unfreeze_container_def change_state_def seq_def andthen_def client_do_def return_def
      append_action_def Let_def split: option.splits)


lemma preservesD: "preserves I f \<Longrightarrow> I s \<Longrightarrow> f s = (r, s') \<Longrightarrow> I s'"
  by (auto simp: preserves_def)
lemma preserves_return: "preserves I (return x)"
  by (simp add: preserves_def return_def)
lemma preserves_raise: "preserves I (raise e)"
  by (simp add: preserves_def raise_def)
lemma preserves_lift: "preserves I (lift f)"
  by (simp add: preserves_def lift_def)
lemma preserves_andthen:
  "preserves I f \<Longrightarrow> (\<And>x. preserves I (g x)) \<Longrightarrow> preserves I (andthen f g)"
  unfolding preserves_def andthen_def by (auto split: prod.splits sum.splits)
lemma preserves_seq: "preserves I f \<Longrightarrow> preserves I g \<Longrightarrow> preserves I (seq f g)"
  unfolding seq_def by (rule preserves_andthen)
lemma preserves_cond: "preserves I f \<Longrightarrow> preserves I g \<Longrightarrow> preserves I (cond p f g)"
  by (simp add: preserves_def cond_def)
lemma preserves_if: "preserves I f \<Longrightarrow> preserves I g \<Longrightarrow> preserves I (if b then f else g)"
  by simp

lemma preserves_lifecycle_step:
  assumes "plan_stable I" and "lifecycle_request req" and "a \<noteq> ''apply_container_configs''"
  shows "I s \<Longrightarrow> I (snd (lifecycle_step cp req a s))"
proof -
  assume i: "I s"
  from assms(1) have
    snt: "\<And>s req. I s \<Longrightarrow> \<not> check_mode s \<Longrightarrow> lifecycle_request req \<Longrightarrow>
            I (s\<lparr>sent := sent s @ [req]\<rparr>)"
    and act: "\<And>s a. I s \<Longrightarrow> a \<noteq> ''apply_container_configs'' \<Longrightarrow>
            I (s\<lparr>actions := actions s @ [a]\<rparr>)"
    by (auto simp: plan_stable_def)
  show ?thesis
  proof (cases "check_mode s")
    case True
    then show ?thesis using act[OF i assms(3)] by (simp add: lifecycle_step_def)
  next
    case False
    from snt[OF i False assms(2)] have 1: "I (s\<lparr>sent := sent s @ [req]\<rparr>)" .
    from act[OF 1 assms(3)] have 2: "I (s\<lparr>sent := sent s @ [req], actions := actions s @ [a]\<rparr>)"
      by simp
    from False 1 2 show ?thesis by (simp add: lifecycle_step_def split: option.splits)
  qed
qed

lemma preserves_lifecycle:
  assumes "plan_stable I"
  shows "preserves I (create_container cp)" "preserves I (start_container cp)"
    "preserves I (stop_container cp)" "preserves I (restart_container cp)"
    "preserves I (delete_container cp)" "preserves I (freeze_container cp)"
    "preserves I (unfreeze_container cp)"
  unfolding preserves_def lifecycle_forms
  by (auto intro!: preserves_lifecycle_step[OF assms] simp: create_request_def)


declare get_addresses_loop.simps [simp del]

lemma container_ipv4_addresses_state:
  "snd (container_ipv4_addresses cp s) = s\<lparr>sent := sent s @ [GetInstanceState]\<rparr>"
  by (simp add: container_ipv4_addresses_def get_container_state_json_def andthen_def
      raise_def return_def Let_def split: sum.splits option.splits)

lemma get_addresses_loop_keeps:
  assumes snt: "\<And>s. I s \<Longrightarrow> I (s\<lparr>sent := sent s @ [GetInstanceState]\<rparr>)"
    and adr: "\<And>s a. I s \<Longrightarrow> has_all_ipv4_addresses a \<Longrightarrow> I (s\<lparr>addresses := Some a\<rparr>)"
  shows "I s \<Longrightarrow> I (snd (get_addresses_loop cp due now s))"
proof (induction cp due now s rule: get_addresses_loop.induct)
  case (1 cp due now s)
  show ?case
  proof (cases "now < due")
    case False
    then show ?thesis using 1 by (subst get_addresses_loop.simps) simp
  next
    case True
    obtain r s1 where c: "container_ipv4_addresses cp s = (r, s1)" by fastforce
    with container_ipv4_addresses_state[of cp s] have s1: "s1 = s\<lparr>sent := sent s @ [GetInstanceState]\<rparr>"
      by simp
    then have i1: "I s1" using snt 1(2) by simp
    show ?thesis
    proof (cases r)
      case (Inl e)
      then show ?thesis using True c i1
        by (subst get_addresses_loop.simps) simp
    next
      case (Inr addrs)
      show ?thesis
      proof (cases "has_all_ipv4_addresses addrs")
        case h: True
        then show ?thesis using True c Inr adr[OF i1 h]
          by (subst get_addresses_loop.simps) simp
      next
        case h: False
        from 1(1)[OF True c[symmetric] Inr h i1] show ?thesis
          using True c Inr h by (subst get_addresses_loop.simps) simp
      qed
    qed
  qed
qed

lemma preserves_get_addresses_loop:
  assumes "plan_stable I"
  shows "I s \<Longrightarrow> I (snd (get_addresses_loop cp due now s))"
  using assms by (intro get_addresses_loop_keeps[of I]) (auto simp: plan_stable_def)

lemma get_addresses_state:
  "snd (get_addresses cp s) =
     (if clock s + timeout s < 0 \<or> datetime_max < clock s + timeout s then s
      else snd (get_addresses_loop cp (clock s + timeout s) (clock s) s))"
  by (simp add: get_addresses_def split: prod.splits sum.splits exn.splits)

lemma preserves_get_addresses: "plan_stable I \<Longrightarrow> preserves I (get_addresses cp)"
  by (simp add: preserves_def get_addresses_state preserves_get_addresses_loop)

lemma preserves_wait_if_requested: "plan_stable I \<Longrightarrow> preserves I (wait_if_requested cp)"
  unfolding wait_if_requested_def
  by (intro preserves_cond preserves_get_addresses preserves_return)


lemma set_items_state:
  "snd (set_items b k items s) = s \<or>
   (\<exists>m k' d. jmetadata (old_container_json s) = Some m \<and> fmlookup m k' = Some (PDict d) \<and>
      snd (set_items b k items s) = with_metadata s (fmupd k' (PDict (d ++\<^sub>f items)) m))"
proof (cases "items = fmempty")
  case True
  then show ?thesis by (simp add: set_items_def)
next
  case False
  show ?thesis
  proof (cases "fmlookup b k")
    case None
    then show ?thesis using False by (simp add: set_items_def)
  next
    case (Some r)
    show ?thesis
    proof (cases r)
      case (Own v)
      then show ?thesis using False Some by (cases v) (simp_all add: set_items_def)
    next
      case (Shared k')
      show ?thesis
      proof (cases "jmetadata (old_container_json s)")
        case None
        then show ?thesis using False Some Shared by (simp add: set_items_def)
      next
        case m: (Some m)
        show ?thesis
        proof (cases "fmlookup m k'")
          case None
          then show ?thesis using False Some Shared m by (simp add: set_items_def)
        next
          case v: (Some v)
          show ?thesis
          proof (cases v)
            case (PDict d)
            have "snd (set_items b k items s) =
                    with_metadata s (fmupd k' (PDict (d ++\<^sub>f items)) m)"
              using False Some Shared m v PDict by (simp add: set_items_def with_metadata_def)
            with m v PDict show ?thesis by blast
          qed (use False Some Shared m v in \<open>simp_all add: set_items_def\<close>)
        qed
      qed
    qed
  qed
qed

lemma preserves_set_items:
  assumes md: "\<And>s m k d items. I s \<Longrightarrow> jmetadata (old_container_json s) = Some m \<Longrightarrow>
          fmlookup m k = Some (PDict d) \<Longrightarrow>
          I (with_metadata s (fmupd k (PDict (d ++\<^sub>f items)) m))"
  shows "preserves I (set_items b k items)"
  unfolding preserves_def
proof (intro allI impI)
  fix s assume i: "I s"
  from set_items_state[of b k items s] show "I (snd (set_items b k items s))"
  proof
    assume "snd (set_items b k items s) = s"
    with i show ?thesis by simp
  next
    assume "\<exists>m k' d. jmetadata (old_container_json s) = Some m \<and> fmlookup m k' = Some (PDict d) \<and>
      snd (set_items b k items s) = with_metadata s (fmupd k' (PDict (d ++\<^sub>f items)) m)"
    then obtain m k' d where "jmetadata (old_container_json s) = Some m"
      "fmlookup m k' = Some (PDict d)"
      "snd (set_items b k items s) = with_metadata s (fmupd k' (PDict (d ++\<^sub>f items)) m)"
      by blast
    with md[OF i] show ?thesis by simp
  qed
qed

lemma apply_param_state:
  "snd (apply_param p b s) = s \<or>
   (\<exists>b' items. snd (apply_param p b s) = snd (set_items b' ''config'' items s))"
proof (cases "jmetadata (old_container_json s)")
  case None
  then show ?thesis by (simp add: apply_param_def)
next
  case (Some old_metadata)
  show ?thesis
  proof (cases "needs_to_change_container_config s p")
    case (Inl e)
    then show ?thesis using Some by (simp add: apply_param_def Let_def)
  next
    case (Inr needed)
    show ?thesis
    proof (cases needed)
      case False
      then show ?thesis using Some Inr by (simp add: apply_param_def Let_def)
    next
      case True
      show ?thesis
      proof (cases "p = ''config''")
        case False
        then show ?thesis using Some Inr True
          by (cases "fmlookup (config s) p") (simp_all add: apply_param_def Let_def)
      next
        case c: True
        show ?thesis
        proof (cases "fmlookup (config s) ''config''")
          case None
          then show ?thesis using Some Inr True c by (simp add: apply_param_def Let_def)
        next
          case v: (Some v)
          show ?thesis
          proof (cases v)
            case (PDict items)
            then have "\<exists>b'. snd (apply_param p b s) = snd (set_items b' ''config'' items s)"
              using Some Inr True c v by (auto simp: apply_param_def Let_def)
            then show ?thesis by blast
          qed (use Some Inr True c v in \<open>simp_all add: apply_param_def Let_def\<close>)
        qed
      qed
    qed
  qed
qed

lemma preserves_apply_param:
  assumes md: "\<And>s m k d items. I s \<Longrightarrow> jmetadata (old_container_json s) = Some m \<Longrightarrow>
          fmlookup m k = Some (PDict d) \<Longrightarrow>
          I (with_metadata s (fmupd k (PDict (d ++\<^sub>f items)) m))"
  shows "preserves I (apply_param p b)"
  unfolding preserves_def
proof (intro allI impI)
  fix s assume i: "I s"
  from apply_param_state[of p b s] show "I (snd (apply_param p b s))"
  proof
    assume "snd (apply_param p b s) = s"
    with i show ?thesis by simp
  next
    assume "\<exists>b' items. snd (apply_param p b s) = snd (set_items b' ''config'' items s)"
    then obtain b' items where
      eq: "snd (apply_param p b s) = snd (set_items b' ''config'' items s)"
      by blast
    have "preserves I (set_items b' ''config'' items)"
      by (rule preserves_set_items) (rule md)
    then have "I (snd (set_items b' ''config'' items s))"
      using i unfolding preserves_def by blast
    then show ?thesis by (simp only: eq)
  qed
qed

lemma preserves_apply_loop:
  assumes md: "\<And>s m k d items. I s \<Longrightarrow> jmetadata (old_container_json s) = Some m \<Longrightarrow>
          fmlookup m k = Some (PDict d) \<Longrightarrow>
          I (with_metadata s (fmupd k (PDict (d ++\<^sub>f items)) m))"
  shows "I s \<Longrightarrow> I (snd (apply_loop ps b s))"
proof (induction ps arbitrary: b s)
  case Nil
  then show ?case by simp
next
  case (Cons p ps)
  obtain r s1 where p1: "apply_param p b s = (r, s1)" by fastforce
  from preservesD[OF preserves_apply_param[of I, OF md] Cons.prems p1] have "I s1" .
  with Cons.IH show ?case by (cases r) (auto simp: p1)
qed

lemma preserves_apply_container_configs:
  assumes "apply_stable I" shows "preserves I (apply_container_configs cp)"
proof -
  from assms have
    md: "\<And>s m k d items. I s \<Longrightarrow> jmetadata (old_container_json s) = Some m \<Longrightarrow>
          fmlookup m k = Some (PDict d) \<Longrightarrow>
          I (with_metadata s (fmupd k (PDict (d ++\<^sub>f items)) m))"
    and df: "\<And>s b. I s \<Longrightarrow> I (s\<lparr>diff := (diff s)\<lparr>after_instance := Some b\<rparr>\<rparr>)"
    and snt: "\<And>s b. I s \<Longrightarrow> \<not> check_mode s \<Longrightarrow> I (s\<lparr>sent := sent s @ [PutInstance b]\<rparr>)"
    and act: "\<And>s. I s \<Longrightarrow> I (s\<lparr>actions := actions s @ [''apply_container_configs'']\<rparr>)"
    by (auto simp: apply_stable_def)
  have 1: "preserves I (\<lambda>s. case jmetadata (old_container_json s) of
                     None \<Rightarrow> (Inl (PyError ''KeyError''), s)
                   | Some _ \<Rightarrow> apply_loop (param_order s) fmempty s)"
  proof -
    have "I (snd (apply_loop ps b s))" if "I s" for ps b s
      using that by (rule preserves_apply_loop[of I, rotated]) (rule md)
    then show ?thesis by (auto simp: preserves_def split: option.splits)
  qed
  have 2: "preserves I (\<lambda>s. (Inr (), s\<lparr>diff := (diff s)\<lparr>after_instance := Some body_json\<rparr>\<rparr>))"
    for body_json
    by (simp add: preserves_def df)
  have 3: "preserves I (\<lambda>s. if \<not> check_mode s
              then client_do cp (PutInstance (serialise s body_json)) s else return () s)"
    for body_json
    by (auto simp: preserves_def client_do_def return_def Let_def snt split: option.splits)
  have 4: "preserves I (append_action ''apply_container_configs'')"
    by (simp add: preserves_def append_action_def act)
  show ?thesis
    unfolding apply_container_configs_def
    by (intro preserves_andthen preserves_seq 1 2 3 4)
qed

lemma preserves_apply_if_needed:
  "apply_stable I \<Longrightarrow> preserves I (apply_if_needed cp)"
  unfolding apply_if_needed_def
  by (intro preserves_andthen preserves_lift preserves_if preserves_return
      preserves_apply_container_configs)

text \<open>The handlers, given how the two places that may apply the configuration behave.\<close>

lemma preserves_handlers:
  assumes st: "plan_stable I"
    and a1: "preserves I (apply_if_needed cp)"
    and a2: "preserves I (andthen (lift needs_to_apply_container_configs)
             (\<lambda>b. if b then seq (start_container cp)
                                (seq (apply_container_configs cp) (stop_container cp))
                   else return ()))"
  shows "preserves I (started cp)" "preserves I (stopped cp)" "preserves I (restarted cp)"
    "preserves I (destroyed cp)" "preserves I (frozen cp)"
  unfolding started_def stopped_def restarted_def destroyed_def frozen_def
  by (intro preserves_seq preserves_cond preserves_return preserves_lifecycle[OF st]
        preserves_wait_if_requested[OF st] a1 a2)+

lemma preserves_dispatch:
  assumes st: "plan_stable I"
    and a1: "preserves I (apply_if_needed cp)"
    and a2: "preserves I (andthen (lift needs_to_apply_container_configs)
             (\<lambda>b. if b then seq (start_container cp)
                                (seq (apply_container_configs cp) (stop_container cp))
                   else return ()))"
  shows "preserves I (dispatch cp)"
  using preserves_handlers[OF assms]
  by (auto simp: preserves_def dispatch_def split: option.splits)

lemma preserves_stopped_block:
  assumes "plan_stable I" "apply_stable I"
  shows "preserves I (andthen (lift needs_to_apply_container_configs)
             (\<lambda>b. if b then seq (start_container cp)
                                (seq (apply_container_configs cp) (stop_container cp))
                   else return ()))"
  by (intro preserves_andthen preserves_lift preserves_if preserves_seq preserves_return
      preserves_lifecycle[OF assms(1)] preserves_apply_container_configs[OF assms(2)])

lemma preserves_dispatch_stable:
  "plan_stable I \<Longrightarrow> apply_stable I \<Longrightarrow> preserves I (dispatch cp)"
  by (intro preserves_dispatch preserves_apply_if_needed preserves_stopped_block)

section \<open>Lemmas: the handlers\<close>

lemma needs_to_change_frame:
  "config s' = config s \<Longrightarrow> old_container_json s' = old_container_json s \<Longrightarrow>
   needs_to_change_container_config s' k = needs_to_change_container_config s k"
  by (simp add: needs_to_change_container_config_def split: option.splits)

lemma needs_to_apply_frame:
  assumes "config s' = config s" "old_container_json s' = old_container_json s"
    "param_order s' = param_order s"
  shows "needs_to_apply_container_configs s' = needs_to_apply_container_configs s"
proof -
  have "needs_to_apply_loop ps s' = needs_to_apply_loop ps s" for ps
    by (induction ps) (simp_all add: needs_to_change_frame[OF assms(1,2)] split: sum.splits bool.splits)
  then show ?thesis by (simp add: needs_to_apply_container_configs_def assms(3))
qed

lemma needs_after_lifecycle_step:
  "lifecycle_step cp req a s = (r, s') \<Longrightarrow>
   needs_to_apply_container_configs s' = needs_to_apply_container_configs s"
  by (rule needs_to_apply_frame)
     (auto simp: lifecycle_step_def split: if_splits option.splits)

lemma seq_cong_state:
  "(\<And>s'. f s = (Inr (), s') \<Longrightarrow> g s' = h s') \<Longrightarrow> seq f g s = seq f h s"
  by (auto simp: seq_def andthen_def split: prod.splits sum.splits)

lemma seq_cong_fun: "f s = f' s \<Longrightarrow> seq f g s = seq f' g s"
  by (simp add: seq_def andthen_def)

lemma seq_return_right: "seq f (return ()) = f"
  by (rule ext) (auto simp: seq_def andthen_def return_def split: prod.splits sum.splits)

lemma apply_if_needed_known:
  "needs_to_apply_container_configs s = Inr b \<Longrightarrow>
   apply_if_needed cp s = (if b then apply_container_configs cp else return ()) s"
  by (simp add: apply_if_needed_def andthen_def lift_def)

lemma wait_flag_stable:
  "plan_stable (\<lambda>s. wait_for_ipv4_addresses s = w)" "apply_stable (\<lambda>s. wait_for_ipv4_addresses s = w)"
  by (simp_all add: plan_stable_def apply_stable_def with_metadata_def)

lemma wait_flag_perform_all:
  "wait_for_ipv4_addresses (snd (perform_all cp ops s)) = wait_for_ipv4_addresses s"
proof -
  let ?I = "\<lambda>s'. wait_for_ipv4_addresses s' = wait_for_ipv4_addresses s"
  have p: "preserves ?I (perform cp x)" for x
    by (cases x) (simp_all add: preserves_lifecycle[OF wait_flag_stable(1)]
        preserves_apply_container_configs[OF wait_flag_stable(2)])
  have "preserves ?I (perform_all cp ops)"
    by (induction ops) (simp_all add: preserves_return preserves_seq p)
  then show ?thesis by (simp add: preserves_def)
qed

section \<open>Lemmas: attributes left out\<close>

lemma omitted_not_in_config:
  "omitted ps key \<Longrightarrow> fmlookup (build_config ps) key = None"
  by (auto simp: omitted_def lookup_build_config)

lemma never_applied_plan_stable: "plan_stable (never_applied cfg order)"
  by (auto simp: plan_stable_def never_applied_def elim: lifecycle_request.elims)

lemma never_applied_needs:
  assumes "\<And>k. k \<in> mutable_params \<Longrightarrow> omitted ps k" and "set order \<subseteq> mutable_params"
    and "never_applied (build_config ps) order s"
  shows "needs_to_apply_container_configs s = Inr False"
proof -
  have "needs_to_change_container_config s p = Inr False" if "p \<in> set order" for p
  proof -
    from that assms(2) have "p \<in> mutable_params" by blast
    then have "omitted ps p" by (rule assms(1))
    then have "fmlookup (config s) p = None"
      using assms(3) by (simp add: never_applied_def omitted_not_in_config)
    then show ?thesis by (rule needs_to_change_absent_key)
  qed
  then show ?thesis
    using assms(3) by (simp add: needs_to_apply_container_configs_def never_applied_def
        needs_to_apply_loop_all_false)
qed

lemma never_applied_blocks:
  assumes "\<And>k. k \<in> mutable_params \<Longrightarrow> omitted ps k" and "set order \<subseteq> mutable_params"
    and "preserves (never_applied (build_config ps) order) (g False)"
  shows "preserves (never_applied (build_config ps) order)
           (andthen (lift needs_to_apply_container_configs) g)"
  using assms(3) never_applied_needs[OF assms(1,2)]
  by (auto simp: preserves_def andthen_def lift_def)


lemma never_applied_dispatch:
  assumes "\<And>k. k \<in> mutable_params \<Longrightarrow> omitted ps k" and "set order \<subseteq> mutable_params"
  shows "preserves (never_applied (build_config ps) order) (dispatch cp)"
  apply (rule preserves_dispatch[OF never_applied_plan_stable])
  unfolding apply_if_needed_def
   apply (rule never_applied_blocks[OF assms]; simp add: preserves_return)+
  done

lemma never_applied_run_body:
  assumes "\<And>k. k \<in> mutable_params \<Longrightarrow> omitted ps k" and "set order \<subseteq> mutable_params"
  shows "preserves (never_applied (build_config ps) order) (run_body cp)"
proof -
  let ?I = "never_applied (build_config ps) order"
  have 1: "preserves ?I (\<lambda>s. case trust_password s of
                 Some pw \<Rightarrow> client_authenticate cp pw s
               | None \<Rightarrow> return () s)"
    by (auto simp: preserves_def never_applied_def client_authenticate_def return_def Let_def
        split: option.splits)
  have 2: "preserves ?I (andthen (get_container_json cp)
            (\<lambda>j s. (Inr (), s\<lparr>old_container_json := j\<rparr>)))"
    by (auto simp: preserves_def never_applied_def get_container_json_def andthen_def Let_def
        split: sum.splits)
  have 3: "preserves ?I (andthen (lift (\<lambda>s. container_json_to_module_state (old_container_json s)))
            (\<lambda>st s. (Inr (), s\<lparr>old_state := st\<rparr>)))"
    by (auto simp: preserves_def never_applied_def andthen_def lift_def split: sum.splits)
  have 4: "preserves ?I record_before"
    by (auto simp: preserves_def never_applied_def record_before_def Let_def
        split: option.splits sum.splits)
  show ?thesis
    unfolding run_body_def
    by (intro preserves_seq 1 2 3 4 never_applied_dispatch[OF assms])
qed


section \<open>Lemmas: the run and check mode\<close>

lemma preserves_run_body:
  assumes st: "plan_stable I" and ft: "fetch_stable I"
    and a1: "preserves I (apply_if_needed cp)"
    and a2: "preserves I (andthen (lift needs_to_apply_container_configs)
             (\<lambda>b. if b then seq (start_container cp)
                                (seq (apply_container_configs cp) (stop_container cp))
                   else return ()))"
  shows "preserves I (run_body cp)"
proof -
  from ft have au: "\<And>s pw. I s \<Longrightarrow> I (s\<lparr>sent := sent s @ [Authenticate pw]\<rparr>)"
    and gi: "\<And>s. I s \<Longrightarrow> I (s\<lparr>sent := sent s @ [GetInstance]\<rparr>)"
    and oj: "\<And>s j. I s \<Longrightarrow> I (s\<lparr>old_container_json := j\<rparr>)"
    and os: "\<And>s st. I s \<Longrightarrow> I (s\<lparr>old_state := st\<rparr>)"
    and df: "\<And>s d. I s \<Longrightarrow> I (s\<lparr>diff := d\<rparr>)"
    by (auto simp: fetch_stable_def)
  have 1: "preserves I (\<lambda>s. case trust_password s of
                 Some pw \<Rightarrow> client_authenticate cp pw s
               | None \<Rightarrow> return () s)"
    by (auto simp: preserves_def client_authenticate_def return_def Let_def au
        split: option.splits)
  have 2: "preserves I (andthen (get_container_json cp)
            (\<lambda>j s. (Inr (), s\<lparr>old_container_json := j\<rparr>)))"
    by (auto simp: preserves_def get_container_json_def andthen_def Let_def gi oj
        split: sum.splits)
  have 3: "preserves I (andthen (lift (\<lambda>s. container_json_to_module_state (old_container_json s)))
            (\<lambda>st s. (Inr (), s\<lparr>old_state := st\<rparr>)))"
    by (auto simp: preserves_def andthen_def lift_def os split: sum.splits)
  have 4: "preserves I record_before"
    by (auto simp: preserves_def record_before_def Let_def df
        split: option.splits sum.splits)
  show ?thesis
    unfolding run_body_def
    by (intro preserves_seq 1 2 3 4 preserves_dispatch[OF st a1 a2])
qed

lemma preserves_run_body_stable:
  "plan_stable I \<Longrightarrow> apply_stable I \<Longrightarrow> fetch_stable I \<Longrightarrow> preserves I (run_body cp)"
  by (intro preserves_run_body preserves_apply_if_needed preserves_stopped_block)










section \<open>Lemmas: the address wait\<close>

lemma addresses_complete_stable:
  "plan_stable addresses_complete" "apply_stable addresses_complete"
  "fetch_stable addresses_complete"
  by (auto simp: plan_stable_def apply_stable_def fetch_stable_def addresses_complete_def
      with_metadata_def)

lemma get_addresses_message:
  "get_addresses cp s = (Inl (LXDClientException m), s') \<Longrightarrow>
   m = ''timeout for getting IPv4 addresses''"
  by (auto simp: get_addresses_def split: prod.splits sum.splits exn.splits if_splits)

text \<open>The addresses a run reports come from a poll in which every device had one.\<close>

lemma reported_addresses_complete:
  assumes "fst (run cp (init args order now)) = exit_json st rep (Some a)"
  shows "has_all_ipv4_addresses a"
proof -
  let ?s0 = "init args order now"
  obtain r s1 where rb: "run_body cp ?s0 = (r, s1)" by fastforce
  have "addresses_complete ?s0" by (simp add: addresses_complete_def init_def)
  from preservesD[OF preserves_run_body_stable[OF addresses_complete_stable] this rb]
  have "addresses_complete s1" .
  then show ?thesis
    using assms by (auto simp: run_def rb addresses_complete_def split: sum.splits exn.splits)
qed

section \<open>Lemmas: the run up to the handler\<close>












section \<open>Lemmas: the handlers and the transition table\<close>

lemma started_as_table:
  assumes "old_state s = module_state obs"
    and "obs \<noteq> Absent \<longrightarrow> needs_to_apply_container_configs s = Inr needed"
  shows "started cp s =
           seq (perform_all cp (table_started obs needed)) (wait_if_requested cp) s"
proof -
  let ?front = "cond (\<lambda>s. old_state s = ''absent'')
            (seq (create_container cp) (start_container cp))
            (seq (cond (\<lambda>s. old_state s = ''frozen'') (unfreeze_container cp)
                   (cond (\<lambda>s. old_state s = ''stopped'') (start_container cp) (return ())))
                 (apply_if_needed cp))"
  let ?tail = "if needed then apply_container_configs cp else return ()"
  have step: "seq f (apply_if_needed cp) s = seq f ?tail s"
    if "\<And>r s'. f s = (r, s') \<Longrightarrow> needs_to_apply_container_configs s' = Inr needed" for f
    by (rule seq_cong_state) (simp add: apply_if_needed_known[OF that])
  have front: "?front s = perform_all cp (table_started obs needed) s"
  proof (cases obs)
    case Absent
    then show ?thesis using assms(1)
      by (simp add: cond_def table_started_def seq_return_right)
  next
    case Stopped
    have "seq (start_container cp) (apply_if_needed cp) s = seq (start_container cp) ?tail s"
      by (rule step) (use assms(2) Stopped needs_after_lifecycle_step in \<open>auto simp: lifecycle_forms\<close>)
    moreover have "?front s = seq (start_container cp) (apply_if_needed cp) s"
      using Stopped assms(1) by (simp add: cond_def seq_def andthen_def)
    ultimately show ?thesis using Stopped
      by (simp add: table_started_def seq_return_right)
  next
    case Running
    have l: "seq (return ()) g = g" for g :: "unit prog"
      by (rule ext) (simp add: seq_def andthen_def return_def)
    have "?front s = apply_if_needed cp s"
      using Running assms(1) by (simp add: cond_def seq_def andthen_def return_def)
    also have "\<dots> = ?tail s"
      using assms(2) Running by (simp add: apply_if_needed_known)
    finally show ?thesis using Running
      by (simp add: table_started_def seq_return_right)
  next
    case Frozen
    have "seq (unfreeze_container cp) (apply_if_needed cp) s = seq (unfreeze_container cp) ?tail s"
      by (rule step) (use assms(2) Frozen needs_after_lifecycle_step in \<open>auto simp: lifecycle_forms\<close>)
    moreover have "?front s = seq (unfreeze_container cp) (apply_if_needed cp) s"
      using Frozen assms(1) by (simp add: cond_def seq_def andthen_def)
    ultimately show ?thesis using Frozen
      by (simp add: table_started_def seq_return_right)
  qed
  show ?thesis
    using front by (simp add: started_def seq_def andthen_def)
qed

section \<open>Claims\<close>

text \<open>
  C1. The instance does not exist and the desired state is \<open>started\<close>: the fetch is
  answered with the not-found reply, which \<open>_get_container_json\<close> accepts, and
  \<open>run\<close> then reads the metadata of that reply, which it does not have. The run ends
  with an exception nobody catches, before \<open>_started\<close> is called: nothing is created
  or started and nothing is reported. On a Frozen instance the same desired state sends
  \<open>unfreeze\<close> and logs \<open>unfreez\<close>.
\<close>

theorem absent_instance_is_never_started:
  "run example_absent_plane (init (example_args ''started'') example_order 0) =
     (uncaught ''KeyError'', [GetInstance]) \<and>
   container_json_to_module_state \<lparr>jtype = ''error'', jmetadata = None\<rparr> = Inr ''absent'' \<and>
   run (example_plane ''Frozen'') (init (example_args ''started'') example_order 0) =
     (exit_json ''frozen''
        \<lparr> changed = True, actions_taken = [''unfreez''],
          diff_reported =
            \<lparr> before_state = Some ''frozen'',
              before_instance =
                Some (fmfilter (\<lambda>k. k \<in> mutable_params) (example_metadata ''Frozen'')),
              after_state = Some ''started'', after_instance = None \<rparr> \<rparr>
        None,
      [GetInstance, PutState ''unfreeze'' 2 False])"
  by code_simp




text \<open>
  C3. The address wait is requested with a timeout of two seconds on a running instance
  whose \<open>eth0\<close> has no IPv4 address at any poll. The module polls the state twice, the
  deadline passes, the loop of \<open>_get_addresses\<close> ends and the method returns: the run
  ends with \<open>exit_json\<close>, without addresses and without a failure message, although the
  claim asks for a failure.
\<close>

theorem deadline_passes_without_failure:
  "run (example_plane ''Running'')
     (init ((example_args ''started'')\<lparr>arg_wait_for_ipv4_addresses := True\<rparr>) example_order 0) =
     (exit_json ''started''
        \<lparr> changed = False, actions_taken = [],
          diff_reported =
            \<lparr> before_state = Some ''started'',
              before_instance =
                Some (fmfilter (\<lambda>k. k \<in> mutable_params) (example_metadata ''Running'')),
              after_state = Some ''started'', after_instance = None \<rparr> \<rparr>
        None,
      [GetInstance, GetInstanceState, GetInstanceState])"
  by code_simp

text \<open>
  C4. Observed Running with the configuration key \<open>volatile.last_state.power\<close>, desired
  started, nothing else asked for: nothing needs a change and no action is taken, but the
  \<open>config\<close> section of the before-snapshot of the reported diff still holds the
  \<open>volatile.\<close> key. The comprehension tests \<open>isinstance(section, dict)\<close> on the
  key, so its filtering branch is never taken.
\<close>

theorem before_snapshot_keeps_volatile_keys:
  "fst (run (example_plane ''Running'') (init (example_args ''started'') example_order 0)) =
     exit_json ''started''
       \<lparr> changed = False,
         actions_taken = [],
         diff_reported =
           \<lparr> before_state = Some ''started'',
             before_instance =
               Some (fmap_of_list
                 [(''architecture'', PStr ''x86_64''),
                  (''config'', PDict (fmap_of_list
                     [(''limits.cpu'', PStr ''1''),
                      (''volatile.last_state.power'', PStr ''RUNNING'')])),
                  (''devices'', PDict fmempty), (''ephemeral'', PBool False),
                  (''profiles'', PList [PStr ''default''])]),
             after_state = Some ''started'',
             after_instance = None \<rparr> \<rparr>
       None"
  by code_simp

text \<open>
  C5. Observed Frozen, desired absent, every call succeeding: the module sends the state
  changes \<open>unfreeze\<close> and \<open>stop\<close> and the deletion, in that order, and reports
  \<open>changed\<close>; the name it logs for the first of them is \<open>unfreez\<close>, not
  \<open>unfreeze\<close>.
\<close>

theorem frozen_to_absent_logs_unfreez:
  "run (example_plane ''Frozen'') (init (example_args ''absent'') example_order 0) =
     (exit_json ''frozen''
        \<lparr> changed = True,
          actions_taken = [''unfreez'', ''stop'', ''delete''],
          diff_reported =
            \<lparr> before_state = Some ''frozen'',
              before_instance =
                Some (fmfilter (\<lambda>k. k \<in> mutable_params) (example_metadata ''Frozen'')),
              after_state = Some ''absent'',
              after_instance = None \<rparr> \<rparr>
        None,
      [GetInstance, PutState ''unfreeze'' 2 False, PutState ''stop'' 2 False, DeleteInstance])"
  by code_simp




text \<open>
  C7. When \<open>_apply_container_configs\<close> returns, the \<open>config\<close> of the body it built
  (recorded as the after part of the diff, and sent with \<open>PUT\<close> unless in check mode) is
  the observed config overwritten by the desired pairs: a desired key has the desired value,
  every other observed key keeps its value, no key is dropped. The \<open>config\<close> attribute
  needs a change iff some desired pair is missing from, or bound differently in, the
  observed config without its \<open>volatile.\<close> keys.
\<close>

theorem pushed_config_is_merge:
  assumes "iterates_mutable_params (param_order s)"
    and "jmetadata (old_container_json s) = Some md"
    and "fmlookup md ''config'' = Some (PDict old)"
    and "apply_container_configs cp s = (Inr (), s')"
  shows "(\<exists>b. after_instance (diff s') = Some b \<and>
            fmlookup (serialise s' b) ''config'' = Some (PDict (old ++\<^sub>f desired_items s)) \<and>
            (\<not> check_mode s \<longrightarrow> sent s' = sent s @ [PutInstance (serialise s' b)])) \<and>
         (\<forall>k. fmlookup (old ++\<^sub>f desired_items s) k =
               (case fmlookup (desired_items s) k of Some v \<Rightarrow> Some v | None \<Rightarrow> fmlookup old k)) \<and>
         (\<forall>items. fmlookup (config s) ''config'' = Some (PDict items) \<longrightarrow>
            needs_to_change_container_config s ''config'' =
              Inr (\<exists>k v. fmlookup items k = Some v \<and>
                     fmlookup (fmfilter (\<lambda>k. \<not> startswith k ''volatile.'') old) k \<noteq> Some v))"
proof -
  from apply_container_configs_Inr[OF assms(4)] obtain body s1 where
    loop: "apply_loop (param_order s) fmempty s = (Inr body, s1)"
    and after: "after_instance (diff s') = Some body"
    and json: "old_container_json s' = old_container_json s1"
    and snt: "sent s' = (if check_mode s1 then sent s1 else sent s1 @ [PutInstance (serialise s1 body)])"
    by blast
  from iterates_mutable_paramsD[OF assms(1)] have d: "distinct (param_order s)"
    and c: "''config'' \<in> set (param_order s)" by simp_all
  from apply_loop_config[OF loop d c assms(2,3)]
  have s1: "s1 = with_metadata s (fmupd ''config'' (PDict (old ++\<^sub>f desired_items s)) md)"
    and b: "fmlookup body ''config'' = Some (Shared ''config'')" by simp_all
  have ser: "serialise s' = serialise s1"
    by (rule serialise_cong[OF json])
  have 1: "fmlookup (serialise s' body) ''config'' = Some (PDict (old ++\<^sub>f desired_items s))"
    by (simp add: ser serialise_lookup b deref_def s1)
  have 2: "\<not> check_mode s \<longrightarrow> sent s' = sent s @ [PutInstance (serialise s' body)]"
    using snt by (simp add: ser s1 with_metadata_def)
  have 3: "fmlookup (old ++\<^sub>f desired_items s) k =
               (case fmlookup (desired_items s) k of Some v \<Rightarrow> Some v | None \<Rightarrow> fmlookup old k)" for k
    by (auto simp: fmlookup_dom_iff split: option.splits)
  show ?thesis
    using after 1 2 3 needs_config_iff[OF _ assms(2,3)] by blast
qed

theorem pushed_config_is_merge_witness:
  "iterates_mutable_params
     (param_order (example_fetched (example_config_args ''started'') ''Running'' ''started'')) \<and>
   fst (apply_container_configs (example_plane ''Running'')
          (example_fetched (example_config_args ''started'') ''Running'' ''started'')) = Inr () \<and>
   (\<exists>b. after_instance (diff (snd (apply_container_configs (example_plane ''Running'')
            (example_fetched (example_config_args ''started'') ''Running'' ''started'')))) = Some b \<and>
        fmlookup (serialise (snd (apply_container_configs (example_plane ''Running'')
            (example_fetched (example_config_args ''started'') ''Running'' ''started''))) b) ''config'' =
          Some (PDict (fmap_of_list
            [(''limits.cpu'', PStr ''2''), (''volatile.last_state.power'', PStr ''RUNNING'')])) \<and>
        sent (snd (apply_container_configs (example_plane ''Running'')
            (example_fetched (example_config_args ''started'') ''Running'' ''started''))) =
          [PutInstance (serialise (snd (apply_container_configs (example_plane ''Running'')
            (example_fetched (example_config_args ''started'') ''Running'' ''started''))) b)])"
proof -
  let ?w = "example_fetched (example_config_args ''started'') ''Running'' ''started''"
  let ?cp = "example_plane ''Running''"
  let ?old = "fmap_of_list
            [(''limits.cpu'', PStr ''1''), (''volatile.last_state.power'', PStr ''RUNNING'')]"
  have h1: "iterates_mutable_params (param_order ?w)" by code_simp
  have h2: "jmetadata (old_container_json ?w) = Some (example_metadata ''Running'')"
    by (simp add: example_fetched_def)
  have h3: "fmlookup (example_metadata ''Running'') ''config'' = Some (PDict ?old)"
    by (simp add: example_metadata_def)
  have f: "fst (apply_container_configs ?cp ?w) = Inr ()" by code_simp
  then have h4: "apply_container_configs ?cp ?w = (Inr (), snd (apply_container_configs ?cp ?w))"
    by (simp add: prod_eq_iff)
  have m: "?old ++\<^sub>f desired_items ?w = fmap_of_list
            [(''limits.cpu'', PStr ''2''), (''volatile.last_state.power'', PStr ''RUNNING'')]"
    by code_simp
  have c: "\<not> check_mode ?w" by code_simp
  have e: "sent ?w = []" by code_simp
  from pushed_config_is_merge[OF h1 h2 h3 h4] c e m h1 f show ?thesis by simp
qed

text \<open>
  C10. An attribute the caller leaves out is not in \<open>self.config\<close>, so its change
  check returns \<open>False\<close> whatever was observed. When every mutable attribute is left
  out, no run, for any control plane, desired state and observed instance, logs
  \<open>apply_container_configs\<close> or sends the \<open>PUT\<close> of the instance.
\<close>

theorem omitted_attributes_never_trigger:
  assumes "\<forall>k \<in> mutable_params. omitted (params m) k"
    and "iterates_mutable_params order"
  shows "(\<forall>s key. omitted (params m) key \<longrightarrow> config s = build_config (params m) \<longrightarrow>
            needs_to_change_container_config s key = Inr False) \<and>
         (\<forall>rep. report_in (fst (run cp (init m order now))) = Some rep \<longrightarrow>
            ''apply_container_configs'' \<notin> set (actions_taken rep)) \<and>
         list_all (\<lambda>r. case r of PutInstance b \<Rightarrow> False | _ \<Rightarrow> True)
           (snd (run cp (init m order now)))"
proof -
  let ?I = "never_applied (build_config (params m)) order"
  let ?s0 = "init m order now"
  have a: "\<And>k. k \<in> mutable_params \<Longrightarrow> omitted (params m) k" using assms(1) by blast
  have b: "set order \<subseteq> mutable_params" using assms(2) by (simp add: iterates_mutable_params_def)
  obtain r s where rb: "run_body cp ?s0 = (r, s)" by fastforce
  have "?I ?s0" by (simp add: never_applied_def init_def)
  from preservesD[OF never_applied_run_body[OF a b] this rb] have i: "?I s" .
  have 1: "needs_to_change_container_config s' key = Inr False"
    if "omitted (params m) key" "config s' = build_config (params m)" for s' key
    using that by (simp add: needs_to_change_absent_key omitted_not_in_config)
  have 2: "''apply_container_configs'' \<notin> set (actions_taken rep)"
    if "report_in (fst (run cp ?s0)) = Some rep" for rep
    using that i
    by (auto simp: run_def rb report_of_def never_applied_def split: sum.splits exn.splits)
  have 3: "list_all (\<lambda>r. case r of PutInstance b \<Rightarrow> False | _ \<Rightarrow> True) (snd (run cp ?s0))"
    using i by (auto simp: run_def rb never_applied_def split: sum.splits exn.splits)
  from 1 2 3 show ?thesis by blast
qed

theorem omitted_attributes_never_trigger_witness:
  "iterates_mutable_params example_order \<and>
   needs_to_change_container_config
     (example_fetched (example_args ''stopped'') ''Running'' ''started'') ''config'' = Inr False \<and>
   report_in (fst (run (example_plane ''Running'') (init (example_args ''stopped'') example_order 0))) =
     Some \<lparr> changed = True, actions_taken = [''stop''],
            diff_reported =
              \<lparr> before_state = Some ''started'',
                before_instance =
                  Some (fmfilter (\<lambda>k. k \<in> mutable_params) (example_metadata ''Running'')),
                after_state = Some ''stopped'', after_instance = None \<rparr> \<rparr> \<and>
   ''apply_container_configs'' \<notin> set [''stop'']"
proof -
  let ?m = "example_args ''stopped''"
  have h1: "\<forall>k \<in> mutable_params. omitted (params ?m) k"
    by (auto simp: mutable_params_def CONFIG_PARAMS_def CONFIG_CREATION_PARAMS_def omitted_def
        example_args_def)
  have h2: "iterates_mutable_params example_order" by code_simp
  have c: "config (example_fetched ?m ''Running'' ''started'') = build_config (params ?m)"
    by (simp add: example_fetched_def init_def)
  have o: "omitted (params ?m) ''config''" by (simp add: omitted_def example_args_def)
  have r: "report_in (fst (run (example_plane ''Running'') (init ?m example_order 0))) =
     Some \<lparr> changed = True, actions_taken = [''stop''],
            diff_reported =
              \<lparr> before_state = Some ''started'',
                before_instance =
                  Some (fmfilter (\<lambda>k. k \<in> mutable_params) (example_metadata ''Running'')),
                after_state = Some ''stopped'', after_instance = None \<rparr> \<rparr>"
    by code_simp
  from omitted_attributes_never_trigger[OF h1 h2, of "example_plane ''Running''" 0] c o r h2
  show ?thesis by auto
qed

end
